theory Spec2Isabelle
  imports Complex_Main
begin

section \<open>Arithmetic of the source\<close>

text \<open>
  Coordinates are \<open>coord_t\<close> and \<open>clppr::cInt\<close>, 64-bit signed integers.  They are
  modelled as \<open>int\<close>; signed overflow is undefined in C++, so the model covers the runs
  whose values stay in range.  The operators \<open>/\<close> and \<open>%\<close> of C++ truncate towards
  zero, unlike \<open>div\<close> and \<open>mod\<close> of HOL.  A \<open>double\<close> is idealised as a \<open>real\<close>.
\<close>

definition cdiv :: "int \<Rightarrow> int \<Rightarrow> int" where
  "cdiv a b = sgn a * sgn b * (\<bar>a\<bar> div \<bar>b\<bar>)"

definition crem :: "int \<Rightarrow> int \<Rightarrow> int" where
  "crem a b = a - b * cdiv a b"

text \<open>
  Modelled from the spec: \<open>unscaled\<close> and the scaling factor are declared in a header
  that is not part of this file; a scaled unit is 1e-6 mm.
\<close>

definition unscaled :: "int \<Rightarrow> real" where
  "unscaled v = real_of_int v / 1000000"

section \<open>Geometry primitives\<close>

datatype IntPoint = IntPoint (getX: int) (getY: int)

type_synonym Polyline = "IntPoint list"

definition padd :: "IntPoint \<Rightarrow> IntPoint \<Rightarrow> IntPoint" where
  "padd p q = IntPoint (getX p + getX q) (getY p + getY q)"

definition psub :: "IntPoint \<Rightarrow> IntPoint \<Rightarrow> IntPoint" where
  "psub p q = IntPoint (getX p - getX q) (getY p - getY q)"

datatype Box = Box (minCorner: IntPoint) (maxCorner: IntPoint)

text \<open>
  Modelled from the spec: the box operations (width, height, area, center, union) and
  the point distance belong to the nesting library, whose sources are not part of this
  file.  The center halves the corner sums with integer division.
\<close>

definition width :: "Box \<Rightarrow> int" where
  "width b = getX (maxCorner b) - getX (minCorner b)"

definition height :: "Box \<Rightarrow> int" where
  "height b = getY (maxCorner b) - getY (minCorner b)"

definition Box_area :: "Box \<Rightarrow> real" where
  "Box_area b = real_of_int (width b) * real_of_int (height b)"

definition center :: "Box \<Rightarrow> IntPoint" where
  "center b = IntPoint (cdiv (getX (minCorner b) + getX (maxCorner b)) 2)
                       (cdiv (getY (minCorner b) + getY (maxCorner b)) 2)"

definition boundingBox2 :: "Box \<Rightarrow> Box \<Rightarrow> Box" where
  "boundingBox2 b1 b2 =
     Box (IntPoint (min (getX (minCorner b1)) (getX (minCorner b2)))
                   (min (getY (minCorner b1)) (getY (minCorner b2))))
         (IntPoint (max (getX (maxCorner b1)) (getX (maxCorner b2)))
                   (max (getY (maxCorner b1)) (getY (maxCorner b2))))"

definition distance :: "IntPoint \<Rightarrow> IntPoint \<Rightarrow> real" where
  "distance p q =
     sqrt ((real_of_int (getX q) - real_of_int (getX p))\<^sup>2
         + (real_of_int (getY q) - real_of_int (getY p))\<^sup>2)"

text \<open>
  The envelope of a point set is the box of the smallest and the largest coordinates.
  The envelope of no point is the inverted box of the coordinate range (the largest
  coordinate as minimum, the smallest as maximum).
\<close>

definition coord_max :: int where
  "coord_max = 2 ^ 63 - 1"

definition coord_min :: int where
  "coord_min = - (2 ^ 63)"

definition inverse_box :: Box where
  "inverse_box = Box (IntPoint coord_max coord_max) (IntPoint coord_min coord_min)"

fun envelope :: "IntPoint list \<Rightarrow> Box" where
  "envelope [] = inverse_box"
| "envelope (p # ps) = foldl (\<lambda>b q. boundingBox2 b (Box q q)) (Box p p) ps"

text \<open>
  Modelled from the spec: the signed area of a closed contour (shoelace sum, twice the
  area) and the area of a part, which is always positive.
\<close>

fun shoelace2 :: "IntPoint list \<Rightarrow> int" where
  "shoelace2 (p # q # ps) =
     (getX p * getY q - getX q * getY p) + shoelace2 (q # ps)"
| "shoelace2 ps = 0"

definition signed_area :: "IntPoint list \<Rightarrow> real" where
  "signed_area ps = real_of_int (shoelace2 ps) / 2"

section \<open>Parts, bins and the spatial index\<close>

text \<open>
  Modelled from the spec: a part (\<open>Item\<close>) has a source contour, a mutable translation
  and rotation, and a fixed flag; in this code base it also carries the apply function
  given at construction.  The apply function is either null (\<open>None\<close>) or the closure
  built by the facade, which captures one arrangeable, identified here by a number.
\<close>

record Item =
  item_sh :: "IntPoint list"
  item_rotation :: real
  item_translation :: IntPoint
  item_fixed :: bool
  item_applyfn :: "nat option"

type_synonym PackGroup = "Item list list"

type_synonym SpatElement = "Box \<times> nat"

type_synonym SpatIndex = "SpatElement list"

datatype Alignment = CENTER | DONT_ALIGN

datatype object_function = standard_objfn | fixed_overfit_objfn Box IntPoint

record PConfig =
  alignment :: Alignment
  starting_point :: Alignment
  rotations :: "real list"
  accuracy :: real
  parallel :: bool
  pconf_object_function :: object_function

record AutoArranger =
  m_pck_bin :: Box
  m_pck_dist :: int
  m_pck_pconf :: "PConfig option"
  m_pconf :: PConfig
  m_bin :: Box
  m_bin_area :: real
  m_rtree :: SpatIndex
  m_smallsrtree :: SpatIndex
  m_norm :: real
  m_merged_pile :: "IntPoint list list"
  m_pilebb :: Box
  m_remaining :: "Item list"
  m_items :: "Item list"

text \<open>
  What the code takes from outside this file and cannot be written down here: the
  rotation of a point by an angle, the infinite box around a center, the inside test of
  a shape in a bin, the perimeter of the convex hull of a pile, the value of
  \<open>SCALED_EPSILON\<close> (a macro, taken as a whole number of scaled units), and the
  placement engine behind \<open>Nester::execute\<close>, which returns the pack group and the
  number of times it polled the stop predicate.  The stop predicate is a function of
  the number of polls made before; the null \<open>std::function\<close> is \<open>None\<close>.  The
  progress indicator is passed through to the placement engine and has no part in the
  model.
\<close>

record externals =
  ext_rotate :: "real \<Rightarrow> IntPoint \<Rightarrow> IntPoint"
  ext_Box_infinite :: "IntPoint \<Rightarrow> Box"
  ext_isInside :: "IntPoint list \<Rightarrow> Box \<Rightarrow> bool"
  ext_hull_circumference :: "IntPoint list list \<Rightarrow> real"
  SCALED_EPSILON :: int
  ext_pack :: "AutoArranger \<Rightarrow> Item list \<Rightarrow> (nat \<Rightarrow> bool) option \<Rightarrow> PackGroup \<times> nat"

text \<open>
  Modelled from the spec: the operations of a part are declared by the nesting library
  and missing here.  The transformed shape is the contour with the rotation, then the
  translation applied; the bounding box is the envelope of the transformed shape; the
  area is that of the contour, always positive.  The inflation of the parts by half the
  clearance, which the placement engine does while it runs, is not modelled.
\<close>

definition transformedShape :: "externals \<Rightarrow> Item \<Rightarrow> IntPoint list" where
  "transformedShape L itm =
     map (\<lambda>p. padd (ext_rotate L (item_rotation itm) p) (item_translation itm)) (item_sh itm)"

definition boundingBox :: "externals \<Rightarrow> Item \<Rightarrow> Box" where
  "boundingBox L itm = envelope (transformedShape L itm)"

definition area :: "Item \<Rightarrow> real" where
  "area itm = \<bar>signed_area (item_sh itm)\<bar>"

definition translate :: "Item \<Rightarrow> IntPoint \<Rightarrow> Item" where
  "translate itm d = itm\<lparr>item_translation := padd (item_translation itm) d\<rparr>"

definition markAsFixed :: "Item \<Rightarrow> Item" where
  "markAsFixed itm = itm\<lparr>item_fixed := True\<rparr>"

text \<open>
  The spatial index is an R-tree of the boost library; it is modelled by the list of
  its elements.  A query for the elements intersecting a box keeps those whose boxes
  share a point with it (touching boxes intersect); the bounds are the union of the
  boxes.
\<close>

definition box_intersects :: "Box \<Rightarrow> Box \<Rightarrow> bool" where
  "box_intersects a b \<longleftrightarrow>
     \<not> (getX (maxCorner a) < getX (minCorner b) \<or> getX (minCorner a) > getX (maxCorner b)
      \<or> getY (maxCorner a) < getY (minCorner b) \<or> getY (minCorner a) > getY (maxCorner b))"

definition rtree_insert :: "SpatIndex \<Rightarrow> SpatElement \<Rightarrow> SpatIndex" where
  "rtree_insert t e = t @ [e]"

definition rtree_query :: "SpatIndex \<Rightarrow> Box \<Rightarrow> SpatElement list" where
  "rtree_query t b = filter (\<lambda>e. box_intersects (fst e) b) t"

definition rtree_bounds :: "SpatIndex \<Rightarrow> Box" where
  "rtree_bounds t =
     (case t of [] \<Rightarrow> inverse_box
      | e # es \<Rightarrow> foldl (\<lambda>b x. boundingBox2 b (fst x)) (fst e) es)"

definition rtree_indices :: "SpatIndex \<Rightarrow> nat set" where
  "rtree_indices t = snd ` set t"

section \<open>The arranger\<close>

text \<open>
  The class \<open>AutoArranger\<close>, for a box as the bin.  A quotient by zero is 0 in HOL and
  infinite or not a number in C++: the model covers bins and parts of non-zero area.
  The index \<open>m_items[idx]\<close> is read with \<open>!\<close>; the indices which \<open>before_packing\<close>
  stores are below the length of \<open>m_items\<close>.
\<close>

definition BIG_ITEM_TRESHOLD :: real where
  "BIG_ITEM_TRESHOLD = 0.02"

definition fillConfig :: "PConfig \<Rightarrow> PConfig" where
  "fillConfig pcfg =
     pcfg\<lparr>alignment := CENTER, starting_point := CENTER, rotations := [0],
          accuracy := 0.65, parallel := True\<rparr>"

definition isBig :: "real \<Rightarrow> real \<Rightarrow> bool" where
  "isBig bin_area a \<longleftrightarrow> a / bin_area > BIG_ITEM_TRESHOLD"

definition fixed_overfit :: "real \<times> Box \<Rightarrow> Box \<Rightarrow> real" where
  "fixed_overfit result binbb =
     (let score = fst result;
          pilebb = snd result;
          fullbb = boundingBox2 pilebb binbb;
          diff = Box_area fullbb - Box_area binbb
      in if diff > 0 then score + diff else score)"

datatype e_cases = BIG_ITEM | LAST_BIG_ITEM | SMALL_ITEM

definition min_element :: "real list \<Rightarrow> real" where
  "min_element ds = foldl (\<lambda>m d. if d < m then d else m) (hd ds) (tl ds)"

definition alignment_step :: "externals \<Rightarrow> Item list \<Rightarrow> Item \<Rightarrow> Box \<Rightarrow> real \<Rightarrow> SpatElement \<Rightarrow> real" where
  "alignment_step L items item ibb alignment_score e =
     (let idx = snd e;
          p = items ! idx;
          parea = area p
      in if \<bar>1 - parea / area item\<bar> < 1 / 1000000 then
           (let bb = boundingBox2 (boundingBox L p) ibb;
                bbarea = Box_area bb;
                ascore = 1 - (area item + parea) / bbarea
            in if ascore < alignment_score then ascore else alignment_score)
         else alignment_score)"

definition compute_case :: "AutoArranger \<Rightarrow> Item \<Rightarrow> e_cases" where
  "compute_case a item =
     (let bigitems = (isBig (m_bin_area a) (area item) \<or> m_rtree a = [])
      in if bigitems \<and> m_remaining a \<noteq> [] then BIG_ITEM
         else if bigitems \<and> m_remaining a = [] then LAST_BIG_ITEM
         else SMALL_ITEM)"

definition objfunc :: "externals \<Rightarrow> AutoArranger \<Rightarrow> Item \<Rightarrow> IntPoint \<Rightarrow> real \<times> Box" where
  "objfunc L a item bincenter =
     (let bin_area = m_bin_area a;
          spatindex = m_rtree a;
          smalls_spatindex = m_smallsrtree a;
          ibb = boundingBox L item;
          fullbb = boundingBox2 (m_pilebb a) ibb;
          bigbb = (if spatindex = [] then fullbb else rtree_bounds spatindex);
          N = m_norm a;
          nrm = (\<lambda>val. val / N);
          score =
            (case compute_case a item of
               BIG_ITEM \<Rightarrow>
                 (let minc = minCorner ibb;
                      maxc = maxCorner ibb;
                      top_left = IntPoint (getX minc) (getY maxc);
                      bottom_right = IntPoint (getX maxc) (getY minc);
                      cc = center fullbb;
                      dists = [distance minc cc, distance maxc cc, distance (center ibb) cc,
                               distance top_left cc, distance bottom_right cc];
                      dist0 = nrm (min_element dists);
                      bindist = nrm (distance (center ibb) bincenter);
                      dst = 0.8 * dist0 + 0.2 * bindist;
                      index = (if isBig bin_area (area item) then spatindex else smalls_spatindex);
                      result = rtree_query index ibb;
                      alignment_score = foldl (alignment_step L (m_items a) item ibb) 1 result;
                      density = sqrt (nrm (real_of_int (width fullbb)) * nrm (real_of_int (height fullbb)))
                  in if result = [] then 0.5 * dst + 0.5 * density
                     else 0.40 * dst + 0.40 * density + 0.2 * alignment_score)
             | LAST_BIG_ITEM \<Rightarrow>
                 (let mp = m_merged_pile a @ [transformedShape L item];
                      circ = nrm (ext_hull_circumference L mp);
                      bcirc = 2.0 * nrm (real_of_int (width fullbb + height fullbb))
                  in 0.5 * circ + 0.5 * bcirc)
             | SMALL_ITEM \<Rightarrow> nrm (distance (center ibb) (center bigbb)))
      in (score, fullbb))"

text \<open>
  The constructor.  The placement configuration is filled, the objective of the bin
  type is installed, and the configuration is handed to the packer.  A default
  constructed box has both corners at the origin.
\<close>

definition default_PConfig :: PConfig where
  "default_PConfig =
     \<lparr>alignment = CENTER, starting_point = CENTER, rotations = [], accuracy = 0,
      parallel = False, pconf_object_function = standard_objfn\<rparr>"

definition AutoArranger_init :: "Box \<Rightarrow> int \<Rightarrow> AutoArranger" where
  "AutoArranger_init bin dst =
     (let pconf = (fillConfig default_PConfig)\<lparr>pconf_object_function := standard_objfn\<rparr>
      in \<lparr>m_pck_bin = bin, m_pck_dist = dst, m_pck_pconf = Some pconf, m_pconf = pconf,
          m_bin = bin, m_bin_area = Box_area bin, m_rtree = [], m_smallsrtree = [],
          m_norm = sqrt (Box_area bin), m_merged_pile = [],
          m_pilebb = Box (IntPoint 0 0) (IntPoint 0 0), m_remaining = [], m_items = []\<rparr>)"

text \<open>The \<open>before_packing\<close> callback installed by the constructor.\<close>

definition before_packing_step :: "externals \<Rightarrow> Item list \<Rightarrow> AutoArranger \<Rightarrow> nat \<Rightarrow> AutoArranger" where
  "before_packing_step L items a idx =
     (let itm = items ! idx;
          a1 = (if isBig (m_bin_area a) (area itm)
                then a\<lparr>m_rtree := rtree_insert (m_rtree a) (boundingBox L itm, idx)\<rparr>
                else a)
      in a1\<lparr>m_smallsrtree := rtree_insert (m_smallsrtree a1) (boundingBox L itm, idx)\<rparr>)"

definition before_packing ::
  "externals \<Rightarrow> AutoArranger \<Rightarrow> IntPoint list list \<Rightarrow> Item list \<Rightarrow> Item list \<Rightarrow> AutoArranger" where
  "before_packing L a merged_pile items remaining =
     (let a1 = a\<lparr>m_items := items, m_merged_pile := merged_pile, m_remaining := remaining,
                 m_pilebb := envelope (concat merged_pile), m_rtree := [], m_smallsrtree := []\<rparr>
      in foldl (before_packing_step L items) a1 [0..<length items])"

definition preload_step :: "externals \<Rightarrow> Item list \<Rightarrow> AutoArranger \<Rightarrow> nat \<Rightarrow> AutoArranger" where
  "preload_step L fixeditems a idx =
     (let itm = markAsFixed (fixeditems ! idx)
      in a\<lparr>m_rtree := rtree_insert (m_rtree a) (boundingBox L itm, idx)\<rparr>)"

definition preload :: "externals \<Rightarrow> AutoArranger \<Rightarrow> Item list \<Rightarrow> AutoArranger \<times> Item list" where
  "preload L a fixeditems =
     (let bb = m_bin a;
          bbcenter = center bb;
          pconf = (m_pconf a)\<lparr>alignment := DONT_ALIGN,
                              pconf_object_function := fixed_overfit_objfn bb bbcenter\<rparr>;
          a1 = foldl (preload_step L fixeditems) (a\<lparr>m_pconf := pconf\<rparr>) [0..<length fixeditems]
      in (a1\<lparr>m_pck_pconf := Some pconf\<rparr>, map markAsFixed fixeditems))"

definition is_colliding :: "externals \<Rightarrow> AutoArranger \<Rightarrow> Item \<Rightarrow> bool" where
  "is_colliding L a item =
     (if m_rtree a = [] then False
      else rtree_query (m_rtree a) (boundingBox L item) \<noteq> [])"

section \<open>Result callbacks\<close>

record apply_event =
  ev_target :: nat
  ev_x :: real
  ev_y :: real
  ev_rotation :: real

definition stride_padding :: "int \<Rightarrow> int" where
  "stride_padding w = w + cdiv w 5"

text \<open>
  The closure which the facade registers for a movable arrangeable.  It captures the
  arrangeable and, by reference, the local variable \<open>binwidth\<close> of the facade, whose
  value at the time of the call is an argument here.
\<close>

definition apply_closure :: "nat \<Rightarrow> int \<Rightarrow> Item \<Rightarrow> nat \<Rightarrow> apply_event" where
  "apply_closure arrangeable binwidth itm binidx =
     (let stride = int binidx * stride_padding binwidth;
          offs = item_translation itm
      in \<lparr>ev_target = arrangeable, ev_x = unscaled (getX offs + stride),
          ev_y = unscaled (getY offs), ev_rotation = item_rotation itm\<rparr>)"

text \<open>
  Modelled from the spec: \<open>Item::callApplyFunction\<close> is declared by the nesting library
  and missing here; it invokes the registered apply function with the bin index and
  does nothing for a part without one.
\<close>

definition callApplyFunction :: "int \<Rightarrow> Item \<Rightarrow> nat \<Rightarrow> apply_event list" where
  "callApplyFunction binwidth itm binidx =
     (case item_applyfn itm of
        None \<Rightarrow> []
      | Some arrangeable \<Rightarrow> [apply_closure arrangeable binwidth itm binidx])"

text \<open>
  Modelled from the spec: \<open>Nester::execute\<close> is missing here.  It runs the placement
  engine and then applies the result: each part of bin \<open>k\<close> of the pack group has its
  apply function called with \<open>k\<close>.
\<close>

fun apply_bins :: "int \<Rightarrow> nat \<Rightarrow> PackGroup \<Rightarrow> apply_event list" where
  "apply_bins binwidth k [] = []"
| "apply_bins binwidth k (b # bs) =
     concat (map (\<lambda>itm. callApplyFunction binwidth itm k) b) @ apply_bins binwidth (Suc k) bs"

definition Nester_execute ::
  "externals \<Rightarrow> int \<Rightarrow> AutoArranger \<Rightarrow> Item list \<Rightarrow> (nat \<Rightarrow> bool) option
     \<Rightarrow> PackGroup \<times> apply_event list \<times> nat" where
  "Nester_execute L binwidth a inp stopfn =
     (let (pg, polls) = ext_pack L a inp stopfn
      in (pg, apply_bins binwidth 0 pg, polls))"

text \<open>The call operator of the arranger clears the index of the big items first.\<close>

definition arranger_call ::
  "externals \<Rightarrow> int \<Rightarrow> AutoArranger \<Rightarrow> Item list \<Rightarrow> (nat \<Rightarrow> bool) option
     \<Rightarrow> PackGroup \<times> apply_event list \<times> nat" where
  "arranger_call L binwidth a inp stopfn = Nester_execute L binwidth (a\<lparr>m_rtree := []\<rparr>) inp stopfn"

section \<open>Arrangement over a bin\<close>

text \<open>
  What a call of \<open>_arrange\<close> does, as far as it can be observed: the pack group it
  returns, the calls of \<open>apply_arrange_result\<close> in their order, the arranger as it is
  when its call operator is invoked, the parts given to it, and the number of polls of
  the stop predicate.
\<close>

record run =
  run_packed :: PackGroup
  run_applied :: "apply_event list"
  run_arranger :: AutoArranger
  run_inp :: "Item list"
  run_polls :: nat

text \<open>
  The loop of \<open>_arrange\<close> that tries to put a part to the center of the bin.  It returns
  the list of movable parts as the loop leaves it and the calls of the apply function.
\<close>

fun warm_start :: "externals \<Rightarrow> int \<Rightarrow> AutoArranger \<Rightarrow> Box \<Rightarrow> Item list \<Rightarrow> Item list \<times> apply_event list" where
  "warm_start L binwidth arranger binbb [] = ([], [])"
| "warm_start L binwidth arranger binbb (itm0 # rest) =
     (let ibb = boundingBox L itm0;
          d = psub (center binbb) (center ibb);
          itm = translate itm0 d
      in if \<not> is_colliding L arranger itm
         then (rest, callApplyFunction binwidth (markAsFixed itm) 0)
         else (let (rest', evs) = warm_start L binwidth arranger binbb rest
               in (itm # rest', evs)))"

text \<open>
  The function \<open>_arrange\<close> for a box as the bin.  The bounding box of a box is the box.
\<close>

definition arrange_impl ::
  "externals \<Rightarrow> int \<Rightarrow> Item list \<Rightarrow> Item list \<Rightarrow> Box \<Rightarrow> int \<Rightarrow> (nat \<Rightarrow> bool) option \<Rightarrow> run" where
  "arrange_impl L binwidth shapes excludes bin minobjd stopfn =
     (let arranger = AutoArranger_init bin minobjd;
          excludes1 = filter (\<lambda>it. ext_isInside L (transformedShape L it) bin) excludes;
          (arranger1, shapes1, excludes2, evs1) =
            (if excludes1 \<noteq> [] then
               (let (ar, ex) = preload L arranger excludes1;
                    binbb = bin;
                    (sh, evs) = warm_start L binwidth ar binbb shapes
                in (ar, sh, ex, evs))
             else (arranger, shapes, excludes1, []));
          inp = shapes1 @ excludes2;
          (pg, evs2, polls) = arranger_call L binwidth arranger1 inp stopfn
      in \<lparr>run_packed = pg, run_applied = evs1 @ evs2, run_arranger = arranger1,
          run_inp = inp, run_polls = polls\<rparr>)"

section \<open>The facade\<close>

datatype BedShapeType = BOX | CIRCLE | IRREGULAR | INFINITE | UNKNOWN

datatype CircleBed = CircleBed_invalid | CircleBed (circ_center: IntPoint) (circ_radius: real)

record BedShapes =
  shape_circ :: CircleBed
  shape_box :: Box
  shape_polygon :: Polyline
  shape_infinite :: IntPoint

record BedShapeHint =
  hint_type :: BedShapeType
  hint_shape :: BedShapes

record Arrangeable =
  arr_id :: nat
  get_arrange_polygon :: "IntPoint list \<times> IntPoint \<times> real"

datatype error = empty_contour | bad_function_call

text \<open>
  Modelled from the spec: the orientation test of a polygon is missing here; a polygon
  is counter-clockwise when the signed area of its closed contour is not negative.
\<close>

definition is_counter_clockwise :: "IntPoint list \<Rightarrow> bool" where
  "is_counter_clockwise p \<longleftrightarrow> 0 \<le> signed_area (p @ [hd p])"

text \<open>
  \<open>process_arrangeable\<close> reads the first point of the contour; on a polygon without
  points this is undefined in C++ and \<open>None\<close> here.
\<close>

definition process_arrangeable :: "Arrangeable \<Rightarrow> nat option \<Rightarrow> Item option" where
  "process_arrangeable arrangeable applyfn =
     (let (p0, offs, rotation) = get_arrange_polygon arrangeable;
          p = (if is_counter_clockwise p0 then rev p0 else p0)
      in case p of
           [] \<Rightarrow> None
         | firstp # _ \<Rightarrow>
             Some \<lparr>item_sh = p @ [firstp], item_rotation = rotation,
                   item_translation = IntPoint (getX offs) (getY offs),
                   item_fixed = False, item_applyfn = applyfn\<rparr>)"

fun process_all :: "(Arrangeable \<Rightarrow> nat option) \<Rightarrow> Arrangeable list \<Rightarrow> Item list option" where
  "process_all f [] = Some []"
| "process_all f (a # as) =
     (case process_arrangeable a (f a) of
        None \<Rightarrow> None
      | Some itm \<Rightarrow> (case process_all f as of None \<Rightarrow> None | Some itms \<Rightarrow> Some (itm # itms)))"

text \<open>The halved minimum distance \<open>md\<close> which the facade computes.\<close>

definition halved_distance :: "externals \<Rightarrow> int \<Rightarrow> int" where
  "halved_distance L min_obj_distance =
     (let md = min_obj_distance - SCALED_EPSILON L
      in if crem md 2 \<noteq> 0 then cdiv md 2 + 1 else cdiv md 2)"

text \<open>
  The effects of \<open>arrange\<close>.  The variable \<open>binwidth\<close> is initialised to 0 and no
  statement of the function assigns it; \<open>md\<close> is computed and no statement reads it.
  The only branch of the switch over the type of the bed hint is the default one.
\<close>

definition arrange_run ::
  "externals \<Rightarrow> Arrangeable list \<Rightarrow> Arrangeable list \<Rightarrow> int \<Rightarrow> BedShapeHint
     \<Rightarrow> (nat \<Rightarrow> bool) option \<Rightarrow> run option" where
  "arrange_run L arrangables excludes min_obj_distance bedhint stopcondition =
     (let binwidth = 0 in
      case process_all (\<lambda>a. Some (arr_id a)) arrangables of
        None \<Rightarrow> None
      | Some items \<Rightarrow>
          (case process_all (\<lambda>a. None) excludes of
             None \<Rightarrow> None
           | Some fixeditems \<Rightarrow>
               (let md = halved_distance L min_obj_distance;
                    cfn = stopcondition
                in case hint_type bedhint of
                     _ \<Rightarrow>
                       (let c = center (shape_box (hint_shape bedhint));
                            infbb = ext_Box_infinite L (IntPoint (getX c) (getY c))
                        in Some (arrange_impl L binwidth items fixeditems infbb
                                   min_obj_distance cfn)))))"

text \<open>
  The value of \<open>arrange\<close>.  The stop predicate is called once more after the
  arrangement; calling an empty \<open>std::function\<close> throws.
\<close>

definition arrange ::
  "externals \<Rightarrow> Arrangeable list \<Rightarrow> Arrangeable list \<Rightarrow> int \<Rightarrow> BedShapeHint
     \<Rightarrow> (nat \<Rightarrow> bool) option \<Rightarrow> error + bool" where
  "arrange L arrangables excludes min_obj_distance bedhint stopcondition =
     (let ret = True in
      case arrange_run L arrangables excludes min_obj_distance bedhint stopcondition of
        None \<Rightarrow> Inl empty_contour
      | Some r \<Rightarrow>
          (case stopcondition of
             None \<Rightarrow> Inl bad_function_call
           | Some stop \<Rightarrow> if stop (run_polls r) then Inr False else Inr ret))"

section \<open>Classification of the bed outline\<close>

text \<open>
  Modelled from the spec: the declaration of the bed hint is missing here.  A default
  constructed hint has empty shapes; its circle is invalid and converts to false.  The
  type of the default hint is overwritten in every branch of \<open>bedShape\<close>.
\<close>

definition default_BedShapeHint :: BedShapeHint where
  "default_BedShapeHint =
     \<lparr>hint_type = INFINITE,
      hint_shape = \<lparr>shape_circ = CircleBed_invalid,
                    shape_box = Box (IntPoint 0 0) (IntPoint 0 0),
                    shape_polygon = [], shape_infinite = IntPoint 0 0\<rparr>\<rparr>"

definition poly_area :: "Polyline \<Rightarrow> real" where
  "poly_area p = \<bar>signed_area (p @ [hd p])\<bar>"

definition isCircle :: "externals \<Rightarrow> Box \<Rightarrow> Polyline \<Rightarrow> CircleBed" where
  "isCircle L bb polygon =
     (let c = center bb;
          vertex_distances = map (\<lambda>pt. distance c pt) polygon;
          avg_dist = sum_list vertex_distances / real (length vertex_distances)
      in if list_ex (\<lambda>el. \<bar>el - avg_dist\<bar> > 10 * real_of_int (SCALED_EPSILON L)) vertex_distances
         then CircleBed_invalid
         else CircleBed c avg_dist)"

text \<open>
  \<open>bedShape\<close> reads the first point of the outline to close it; on an outline without
  points this is undefined in C++ and \<open>None\<close> here.
\<close>

definition bedShape :: "externals \<Rightarrow> Polyline \<Rightarrow> BedShapeHint option" where
  "bedShape L bed =
     (if bed = [] then None
      else
        (let ret = default_BedShapeHint;
             bb = envelope bed;
             parea = poly_area bed
         in if 1 - parea / Box_area bb < 1 / 1000
            then Some (ret\<lparr>hint_type := BOX,
                            hint_shape := (hint_shape ret)\<lparr>shape_box := bb\<rparr>\<rparr>)
            else (case isCircle L bb bed of
                    CircleBed c r \<Rightarrow>
                      Some (ret\<lparr>hint_type := CIRCLE,
                                 hint_shape := (hint_shape ret)\<lparr>shape_circ := CircleBed c r\<rparr>\<rparr>)
                  | CircleBed_invalid \<Rightarrow>
                      Some (ret\<lparr>hint_type := IRREGULAR,
                                 hint_shape := (hint_shape ret)\<lparr>shape_polygon := bed\<rparr>\<rparr>))))"

section \<open>Instances of the external operations\<close>

text \<open>
  For evaluating the model on concrete inputs the external operations are instantiated:
  the rotation is the identity (exact for the angle 0, which every part below has), a
  shape is inside a box when its envelope is, the infinite box reaches \<open>2 ^ 61\<close> units
  from its center in each direction, and \<open>SCALED_EPSILON\<close> is 100.  Two placement
  engines are used: one puts all parts into the first bin where they are, and one puts
  the parts not larger than the bin into the first bin and leaves the others out, as the
  spec says of a part that does not fit an empty bin.  Neither polls the stop predicate.
\<close>

definition sample_isInside :: "IntPoint list \<Rightarrow> Box \<Rightarrow> bool" where
  "sample_isInside shape bin \<longleftrightarrow>
     getX (minCorner bin) \<le> getX (minCorner (envelope shape)) \<and>
     getY (minCorner bin) \<le> getY (minCorner (envelope shape)) \<and>
     getX (maxCorner (envelope shape)) \<le> getX (maxCorner bin) \<and>
     getY (maxCorner (envelope shape)) \<le> getY (maxCorner bin)"

definition sample_infinite :: "IntPoint \<Rightarrow> Box" where
  "sample_infinite c = Box (psub c (IntPoint (2 ^ 61) (2 ^ 61))) (padd c (IntPoint (2 ^ 61) (2 ^ 61)))"

definition pack_single_bin :: "AutoArranger \<Rightarrow> Item list \<Rightarrow> (nat \<Rightarrow> bool) option \<Rightarrow> PackGroup \<times> nat" where
  "pack_single_bin a inp stopfn = ([inp], 0)"

definition fits_bin :: "Box \<Rightarrow> Item \<Rightarrow> bool" where
  "fits_bin bin itm \<longleftrightarrow>
     width (envelope (item_sh itm)) \<le> width bin \<and> height (envelope (item_sh itm)) \<le> height bin"

definition pack_fitting :: "AutoArranger \<Rightarrow> Item list \<Rightarrow> (nat \<Rightarrow> bool) option \<Rightarrow> PackGroup \<times> nat" where
  "pack_fitting a inp stopfn = ([filter (fits_bin (m_pck_bin a)) inp], 0)"

definition sample_externals ::
  "(AutoArranger \<Rightarrow> Item list \<Rightarrow> (nat \<Rightarrow> bool) option \<Rightarrow> PackGroup \<times> nat) \<Rightarrow> externals" where
  "sample_externals pk =
     \<lparr>ext_rotate = (\<lambda>r p. p), ext_Box_infinite = sample_infinite,
      ext_isInside = sample_isInside, ext_hull_circumference = (\<lambda>mp. 0),
      SCALED_EPSILON = 100, ext_pack = pk\<rparr>"

definition square :: "int \<Rightarrow> int \<Rightarrow> IntPoint list" where
  "square lo hi = [IntPoint lo lo, IntPoint lo hi, IntPoint hi hi, IntPoint hi lo]"

definition rectangle :: "int \<Rightarrow> int \<Rightarrow> IntPoint list" where
  "rectangle w h = [IntPoint 0 0, IntPoint 0 h, IntPoint w h, IntPoint w 0]"

definition handle :: "nat \<Rightarrow> IntPoint list \<Rightarrow> Arrangeable" where
  "handle n p = \<lparr>arr_id = n, get_arrange_polygon = (p, IntPoint 0 0, 0)\<rparr>"


definition part :: "nat option \<Rightarrow> IntPoint list \<Rightarrow> Item" where
  "part f p = \<lparr>item_sh = p @ [hd p], item_rotation = 0, item_translation = IntPoint 0 0,
               item_fixed = False, item_applyfn = f\<rparr>"

definition never_stop :: "(nat \<Rightarrow> bool) option" where
  "never_stop = Some (\<lambda>n. False)"

definition box_hint :: "Box \<Rightarrow> BedShapeHint" where
  "box_hint b = default_BedShapeHint\<lparr>hint_type := BOX,
                  hint_shape := (hint_shape default_BedShapeHint)\<lparr>shape_box := b\<rparr>\<rparr>"

definition disc_hint :: "IntPoint \<Rightarrow> real \<Rightarrow> BedShapeHint" where
  "disc_hint c rad = default_BedShapeHint\<lparr>hint_type := CIRCLE,
                  hint_shape := (hint_shape default_BedShapeHint)\<lparr>shape_circ := CircleBed c rad\<rparr>\<rparr>"

section \<open>Properties used in the statements\<close>

text \<open>
  The placement engine keeps references to the parts it is given: every part of the
  pack group carries the apply function of a part of the input.
\<close>

definition packs_given_parts :: "externals \<Rightarrow> bool" where
  "packs_given_parts L \<longleftrightarrow>
     (\<forall>a inp stopfn. \<forall>b \<in> set (fst (ext_pack L a inp stopfn)). \<forall>itm \<in> set b.
        item_applyfn itm \<in> item_applyfn ` set inp)"


definition inside_bin :: "externals \<Rightarrow> Box \<Rightarrow> Item \<Rightarrow> bool" where
  "inside_bin L bin it \<longleftrightarrow> ext_isInside L (transformedShape L it) bin"


text \<open>A part moved by the difference of the center of a box and the center of its own box.\<close>

definition centered :: "externals \<Rightarrow> Box \<Rightarrow> Item \<Rightarrow> Item" where
  "centered L binbb itm = translate itm (psub (center binbb) (center (boundingBox L itm)))"

text \<open>
  C7 in the words of the spec: the anchor distance, the neighbours returned by the
  query, the alignment over the neighbours of equal area, and the blended score.
\<close>

definition spec_anchor_distance :: "Box \<Rightarrow> Box \<Rightarrow> real" where
  "spec_anchor_distance fullbb ibb =
     Min ((\<lambda>p. distance p (center fullbb)) `
          {minCorner ibb, maxCorner ibb, center ibb,
           IntPoint (getX (minCorner ibb)) (getY (maxCorner ibb)),
           IntPoint (getX (maxCorner ibb)) (getY (minCorner ibb))})"

definition spec_neighbors :: "externals \<Rightarrow> AutoArranger \<Rightarrow> Item \<Rightarrow> SpatElement list" where
  "spec_neighbors L a item =
     filter (\<lambda>e. box_intersects (fst e) (boundingBox L item))
       (if isBig (m_bin_area a) (area item) then m_rtree a else m_smallsrtree a)"

definition spec_equal_area :: "Item \<Rightarrow> Item \<Rightarrow> bool" where
  "spec_equal_area item p \<longleftrightarrow> \<bar>1 - area p / area item\<bar> < 1 / 1000000"

definition spec_ascore :: "externals \<Rightarrow> Item \<Rightarrow> Item \<Rightarrow> real" where
  "spec_ascore L item p =
     1 - (area item + area p) / Box_area (boundingBox2 (boundingBox L p) (boundingBox L item))"

definition spec_alignment :: "externals \<Rightarrow> AutoArranger \<Rightarrow> Item \<Rightarrow> real" where
  "spec_alignment L a item =
     (let S = spec_ascore L item `
                {p. \<exists>e \<in> set (spec_neighbors L a item). p = m_items a ! snd e \<and> spec_equal_area item p}
      in if S = {} then 1 else Min S)"

definition spec_big_item_score :: "externals \<Rightarrow> AutoArranger \<Rightarrow> Item \<Rightarrow> IntPoint \<Rightarrow> real" where
  "spec_big_item_score L a item bincenter =
     (let N = m_norm a;
          ibb = boundingBox L item;
          full_bb = boundingBox2 (m_pilebb a) ibb;
          dst = 0.8 * (spec_anchor_distance full_bb ibb / N)
                + 0.2 * (distance (center ibb) bincenter / N);
          density = sqrt ((real_of_int (width full_bb) / N) * (real_of_int (height full_bb) / N))
      in if spec_neighbors L a item = [] then 0.5 * dst + 0.5 * density
         else 0.40 * dst + 0.40 * density + 0.20 * spec_alignment L a item)"

text \<open>
  C8 in the words of the spec: the common radius is the mean distance of the vertices
  from the center of the bounding box; the area equals the area of the bounding box
  within the relative tolerance.
\<close>

definition mean_vertex_distance :: "Polyline \<Rightarrow> real" where
  "mean_vertex_distance bed =
     sum_list (map (distance (center (envelope bed))) bed) / real (length bed)"

definition area_equals_box_area :: "Polyline \<Rightarrow> bool" where
  "area_equals_box_area bed \<longleftrightarrow> \<bar>1 - poly_area bed / Box_area (envelope bed)\<bar> < 1 / 1000"

section \<open>Auxiliary facts\<close>

lemma arrange_run_Some:
  assumes "arrange_run L as es d hint stop = Some r"
  obtains items fixeditems where
    "process_all (\<lambda>a. Some (arr_id a)) as = Some items"
    "process_all (\<lambda>a. None) es = Some fixeditems"
    "r = arrange_impl L 0 items fixeditems
           (ext_Box_infinite L (center (shape_box (hint_shape hint)))) d stop"
  using assms
  by (auto simp: arrange_run_def Let_def split: option.splits BedShapeType.splits)


lemma foldl_preload_step_fields:
  "m_pck_dist (foldl (preload_step L fx) a ns) = m_pck_dist a"
  "m_pck_bin (foldl (preload_step L fx) a ns) = m_pck_bin a"
  "m_bin (foldl (preload_step L fx) a ns) = m_bin a"
  "m_smallsrtree (foldl (preload_step L fx) a ns) = m_smallsrtree a"
  "m_pconf (foldl (preload_step L fx) a ns) = m_pconf a"
  by (induction ns arbitrary: a) (simp_all add: preload_step_def Let_def)

lemma foldl_preload_step_rtree:
  "m_rtree (foldl (preload_step L fx) a ns) =
     m_rtree a @ map (\<lambda>i. (boundingBox L (markAsFixed (fx ! i)), i)) ns"
  by (induction ns arbitrary: a) (simp_all add: preload_step_def Let_def rtree_insert_def)

lemma preload_fields:
  "m_pck_dist (fst (preload L a fx)) = m_pck_dist a"
  "m_pck_bin (fst (preload L a fx)) = m_pck_bin a"
  "m_bin (fst (preload L a fx)) = m_bin a"
  "m_smallsrtree (fst (preload L a fx)) = m_smallsrtree a"
  "snd (preload L a fx) = map markAsFixed fx"
  "m_rtree (fst (preload L a fx)) =
     m_rtree a @ map (\<lambda>i. (boundingBox L (markAsFixed (fx ! i)), i)) [0..<length fx]"
  by (simp_all add: preload_def Let_def foldl_preload_step_fields foldl_preload_step_rtree)

text \<open>\<open>_arrange\<close> unfolded, without and with fixed parts inside the bin.\<close>

lemma arrange_impl_no_excludes:
  assumes "filter (inside_bin L bin) excludes = []"
  shows "arrange_impl L bw shapes excludes bin d stop =
     (let res = arranger_call L bw (AutoArranger_init bin d) shapes stop
      in \<lparr>run_packed = fst res, run_applied = fst (snd res),
          run_arranger = AutoArranger_init bin d, run_inp = shapes, run_polls = snd (snd res)\<rparr>)"
  using assms unfolding inside_bin_def [abs_def]
  by (simp add: arrange_impl_def Let_def case_prod_beta)

lemma arrange_impl_excludes:
  assumes "filter (inside_bin L bin) excludes \<noteq> []"
  shows "arrange_impl L bw shapes excludes bin d stop =
     (let kept = filter (inside_bin L bin) excludes;
          ar = fst (preload L (AutoArranger_init bin d) kept);
          ws = warm_start L bw ar bin shapes;
          inp = fst ws @ map markAsFixed kept;
          res = arranger_call L bw ar inp stop
      in \<lparr>run_packed = fst res, run_applied = snd ws @ fst (snd res),
          run_arranger = ar, run_inp = inp, run_polls = snd (snd res)\<rparr>)"
  using assms preload_fields(5)[of L "AutoArranger_init bin d" "filter (inside_bin L bin) excludes"]
  unfolding inside_bin_def [abs_def]
  by (simp add: arrange_impl_def Let_def case_prod_beta)

lemma arrange_impl_arranger:
  "m_pck_dist (run_arranger (arrange_impl L bw shapes excludes bin d stop)) = d"
  "m_pck_bin (run_arranger (arrange_impl L bw shapes excludes bin d stop)) = bin"
  "m_bin (run_arranger (arrange_impl L bw shapes excludes bin d stop)) = bin"
  by (cases "filter (inside_bin L bin) excludes = []";
      simp add: arrange_impl_no_excludes arrange_impl_excludes Let_def preload_fields
        AutoArranger_init_def)+

lemma cdiv2_ceiling:
  assumes "0 \<le> m"
  shows "(if crem m 2 \<noteq> 0 then cdiv m 2 + 1 else cdiv m 2) = \<lceil>real_of_int m / 2\<rceil>"
proof -
  have d: "cdiv m 2 = m div 2" using assms by (simp add: cdiv_def sgn_if)
  have r: "crem m 2 = m mod 2" unfolding crem_def d by (simp add: minus_mult_div_eq_mod)
  have c: "\<lceil>real_of_int m / 2\<rceil> = - ((- m) div 2)"
    using ceiling_divide_eq_div [of m 2] by simp
  show ?thesis unfolding d r c by presburger
qed

lemmas sample_eval = handle_def square_def is_counter_clockwise_def signed_area_def
  process_arrangeable_def box_hint_def default_BedShapeHint_def center_def cdiv_def crem_def
  sample_externals_def sample_infinite_def psub_def padd_def halved_distance_def never_stop_def

lemma sample_run1:
  "arrange_run (sample_externals pack_single_bin) [handle 1 (square 0 10)] [] 6000000
     (box_hint (Box (IntPoint 0 0) (IntPoint 200 200))) never_stop \<noteq> None"
  by (simp add: arrange_run_def sample_eval)

lemmas run_eval = arrange_impl_def AutoArranger_init_def Let_def arranger_call_def
  Nester_execute_def callApplyFunction_def apply_closure_def stride_padding_def unscaled_def

lemma apply_bins_member:
  "k < length pg \<Longrightarrow> itm \<in> set (pg ! k) \<Longrightarrow> item_applyfn itm = Some h \<Longrightarrow>
     apply_closure h bw itm (n + k) \<in> set (apply_bins bw n pg)"
proof (induction pg arbitrary: n k)
  case Nil
  then show ?case by simp
next
  case (Cons b bs)
  show ?case
  proof (cases k)
    case 0
    with Cons.prems show ?thesis
      by (auto simp: callApplyFunction_def intro!: bexI [of _ itm])
  next
    case (Suc j)
    with Cons.prems Cons.IH [of j "Suc n"] show ?thesis by simp
  qed
qed

lemma arrange_impl_applied:
  "\<exists>evs. run_applied (arrange_impl L bw shapes excludes bin d stop) =
      evs @ apply_bins bw 0 (run_packed (arrange_impl L bw shapes excludes bin d stop))"
  by (cases "filter (inside_bin L bin) excludes = []")
     (simp_all add: arrange_impl_no_excludes arrange_impl_excludes Let_def arranger_call_def
        Nester_execute_def case_prod_beta)

lemma process_all_applyfn:
  "process_all f as = Some items \<Longrightarrow> map item_applyfn items = map f as"
  by (induction as arbitrary: items)
     (auto simp: process_arrangeable_def Let_def split: option.splits list.splits prod.splits)

lemma warm_start_applyfn:
  "item_applyfn ` set (fst (warm_start L bw ar bb shapes)) \<subseteq> item_applyfn ` set shapes"
  "ev \<in> set (snd (warm_start L bw ar bb shapes)) \<Longrightarrow>
     Some (ev_target ev) \<in> item_applyfn ` set shapes"
proof (induction shapes)
  case Nil
  {
    case 1 show ?case by simp
  next
    case 2 then show ?case by simp
  }
next
  case (Cons itm0 rest)
  {
    case 1
    with Cons(1) show ?case
      by (auto simp: Let_def translate_def case_prod_beta)
  next
    case 2
    with Cons(2) show ?case
      by (auto simp: Let_def translate_def markAsFixed_def callApplyFunction_def
            apply_closure_def case_prod_beta split: option.splits if_splits)
  }
qed

lemma apply_bins_targets:
  "ev \<in> set (apply_bins bw n pg) \<Longrightarrow>
     \<exists>b \<in> set pg. \<exists>itm \<in> set b. item_applyfn itm = Some (ev_target ev)"
  by (induction pg arbitrary: n)
     (auto simp: callApplyFunction_def apply_closure_def Let_def split: option.splits)

lemma arrange_impl_targets:
  assumes "packs_given_parts L"
    and "ev \<in> set (run_applied (arrange_impl L bw shapes excludes bin d stop))"
  shows "Some (ev_target ev) \<in> item_applyfn ` (set shapes \<union> set excludes)"
proof (cases "filter (inside_bin L bin) excludes = []")
  case True
  with assms(2) have "ev \<in> set (apply_bins bw 0
      (fst (ext_pack L ((AutoArranger_init bin d)\<lparr>m_rtree := []\<rparr>) shapes stop)))"
    by (simp add: arrange_impl_no_excludes Let_def arranger_call_def Nester_execute_def
          case_prod_beta)
  then obtain b itm where
    "b \<in> set (fst (ext_pack L ((AutoArranger_init bin d)\<lparr>m_rtree := []\<rparr>) shapes stop))"
    "itm \<in> set b" "item_applyfn itm = Some (ev_target ev)"
    using apply_bins_targets by blast
  with assms(1) have "Some (ev_target ev) \<in> item_applyfn ` set shapes"
    unfolding packs_given_parts_def by metis
  then show ?thesis by auto
next
  case False
  define kept where "kept = filter (inside_bin L bin) excludes"
  define ar where "ar = fst (preload L (AutoArranger_init bin d) kept)"
  define ws where "ws = warm_start L bw ar bin shapes"
  define inp where "inp = fst ws @ map markAsFixed kept"
  from False assms(2) have
    "ev \<in> set (snd ws) \<or> ev \<in> set (apply_bins bw 0 (fst (ext_pack L (ar\<lparr>m_rtree := []\<rparr>) inp stop)))"
    by (simp add: arrange_impl_excludes Let_def arranger_call_def Nester_execute_def
          case_prod_beta kept_def ar_def ws_def inp_def)
  then show ?thesis
  proof
    assume "ev \<in> set (snd ws)"
    then show ?thesis
      unfolding ws_def using warm_start_applyfn(2) by blast
  next
    assume "ev \<in> set (apply_bins bw 0 (fst (ext_pack L (ar\<lparr>m_rtree := []\<rparr>) inp stop)))"
    then obtain b itm where
      "b \<in> set (fst (ext_pack L (ar\<lparr>m_rtree := []\<rparr>) inp stop))"
      "itm \<in> set b" "item_applyfn itm = Some (ev_target ev)"
      using apply_bins_targets by blast
    with assms(1) have "Some (ev_target ev) \<in> item_applyfn ` set inp"
      unfolding packs_given_parts_def by metis
    moreover have "item_applyfn ` set inp \<subseteq> item_applyfn ` (set shapes \<union> set excludes)"
      unfolding inp_def ws_def kept_def
      using warm_start_applyfn(1) [of L bw ar bin shapes]
      by (auto simp: markAsFixed_def image_iff)
    ultimately show ?thesis by blast
  qed
qed

lemma pack_single_bin_given: "packs_given_parts (sample_externals pack_single_bin)"
  by (simp add: packs_given_parts_def sample_externals_def pack_single_bin_def)

lemma sample_run3:
  "arrange_run (sample_externals pack_single_bin)
        [handle 1 (square 0 10)] [handle 2 (square 40 60)] 0
        (box_hint (Box (IntPoint 0 0) (IntPoint 200 200))) never_stop \<noteq> None"
  by (simp add: arrange_run_def sample_eval)

lemma foldl_before_packing_step:
  "m_bin_area (foldl (before_packing_step L items) a ns) = m_bin_area a"
  "m_rtree (foldl (before_packing_step L items) a ns) =
     m_rtree a @ map (\<lambda>i. (boundingBox L (items ! i), i))
                    (filter (\<lambda>i. isBig (m_bin_area a) (area (items ! i))) ns)"
  "m_smallsrtree (foldl (before_packing_step L items) a ns) =
     m_smallsrtree a @ map (\<lambda>i. (boundingBox L (items ! i), i)) ns"
  by (induction ns arbitrary: a) (simp_all add: before_packing_step_def Let_def rtree_insert_def)

lemma before_packing_trees:
  "m_rtree (before_packing L a mp items rem) =
     map (\<lambda>i. (boundingBox L (items ! i), i))
       (filter (\<lambda>i. isBig (m_bin_area a) (area (items ! i))) [0..<length items])"
  "m_smallsrtree (before_packing L a mp items rem) =
     map (\<lambda>i. (boundingBox L (items ! i), i)) [0..<length items]"
  by (simp_all add: before_packing_def Let_def foldl_before_packing_step)

lemma warm_start_eq:
  "warm_start L bw ar binbb shapes =
     (map (centered L binbb) (takeWhile (\<lambda>itm. is_colliding L ar (centered L binbb itm)) shapes)
        @ tl (dropWhile (\<lambda>itm. is_colliding L ar (centered L binbb itm)) shapes),
      case dropWhile (\<lambda>itm. is_colliding L ar (centered L binbb itm)) shapes of
        [] \<Rightarrow> []
      | itm # _ \<Rightarrow> callApplyFunction bw (markAsFixed (centered L binbb itm)) 0)"
  by (induction shapes) (simp_all add: Let_def centered_def)

lemma is_colliding_iff:
  "is_colliding L ar itm \<longleftrightarrow>
     (\<exists>e \<in> set (m_rtree ar). box_intersects (fst e) (boundingBox L itm))"
  by (auto simp: is_colliding_def rtree_query_def filter_empty_conv)

lemmas warm_eval = sample_externals_def sample_isInside_def transformedShape_def boundingBox_def
  boundingBox2_def preload_def preload_step_def markAsFixed_def is_colliding_def translate_def
  rtree_insert_def rtree_query_def box_intersects_def center_def cdiv_def psub_def padd_def
  part_def square_def AutoArranger_init_def Let_def callApplyFunction_def apply_closure_def
  stride_padding_def unscaled_def

lemma Min_insert_step:
  fixes d m :: real
  assumes "finite A"
  shows "Min (insert (if d < m then d else m) A) = Min (insert m (insert d A))"
proof -
  have e: "(if d < m then d else m) = min d m" by (simp add: min_def)
  show ?thesis
  proof (cases "A = {}")
    case True
    then show ?thesis unfolding e by (simp add: min.commute)
  next
    case False
    with assms show ?thesis unfolding e
      by (simp add: min.commute min.left_commute)
  qed
qed

lemma Min_insert_top:
  fixes t :: real
  assumes "finite S" "S \<noteq> {}" "\<forall>s \<in> S. s \<le> t"
  shows "Min (insert t S) = Min S"
proof -
  have "Min S \<in> S" using assms(1,2) by (rule Min_in)
  with assms(3) have "Min S \<le> t" by blast
  moreover have "Min (insert t S) = min t (Min S)" using assms(1,2) by (rule Min_insert)
  ultimately show ?thesis by (simp add: min_def)
qed

lemma foldl_min_Min:
  "foldl (\<lambda>m d. if d < m then d else m) (m0::real) ds = Min (insert m0 (set ds))"
proof (induction ds arbitrary: m0)
  case Nil
  then show ?case by simp
next
  case (Cons d ds)
  have "Min (insert (if d < m0 then d else m0) (set ds)) = Min (insert m0 (insert d (set ds)))"
    by (rule Min_insert_step) simp
  with Cons.IH [of "if d < m0 then d else m0"] show ?case by simp
qed

lemma min_element_Min: "ds \<noteq> [] \<Longrightarrow> min_element ds = Min (set ds)"
  by (cases ds) (simp_all add: min_element_def foldl_min_Min)

lemma alignment_step_eq:
  "alignment_step L items item (boundingBox L item) acc e =
     (if spec_equal_area item (items ! snd e)
      then (if spec_ascore L item (items ! snd e) < acc then spec_ascore L item (items ! snd e) else acc)
      else acc)"
  by (simp add: alignment_step_def Let_def spec_equal_area_def spec_ascore_def)

lemma foldl_alignment:
  "foldl (alignment_step L items item (boundingBox L item)) acc es =
     Min (insert acc (spec_ascore L item `
        {p. \<exists>e \<in> set es. p = items ! snd e \<and> spec_equal_area item p}))"
proof (induction es arbitrary: acc)
  case Nil
  then show ?case by simp
next
  case (Cons e es)
  let ?S = "\<lambda>xs. spec_ascore L item ` {p. \<exists>e \<in> set xs. p = items ! snd e \<and> spec_equal_area item p}"
  have fin: "finite (?S es)" by simp
  show ?case
  proof (cases "spec_equal_area item (items ! snd e)")
    case False
    then have "?S (e # es) = ?S es" by auto
    with False Cons.IH [of acc] show ?thesis
      by (simp only: foldl_Cons alignment_step_eq if_False)
  next
    case True
    then have S: "?S (e # es) = insert (spec_ascore L item (items ! snd e)) (?S es)" by auto
    have "Min (insert (if spec_ascore L item (items ! snd e) < acc
                        then spec_ascore L item (items ! snd e) else acc) (?S es))
          = Min (insert acc (insert (spec_ascore L item (items ! snd e)) (?S es)))"
      using fin by (rule Min_insert_step)
    with True Cons.IH [of "if spec_ascore L item (items ! snd e) < acc
                        then spec_ascore L item (items ! snd e) else acc"]
    show ?thesis
      by (simp only: foldl_Cons alignment_step_eq if_True S)
  qed
qed

lemma foldl_boundingBox2_wf:
  assumes "getX (minCorner b) \<le> getX (maxCorner b)" "getY (minCorner b) \<le> getY (maxCorner b)"
  shows "getX (minCorner (foldl (\<lambda>b q. boundingBox2 b (Box q q)) b ps))
           \<le> getX (maxCorner (foldl (\<lambda>b q. boundingBox2 b (Box q q)) b ps))
       \<and> getY (minCorner (foldl (\<lambda>b q. boundingBox2 b (Box q q)) b ps))
           \<le> getY (maxCorner (foldl (\<lambda>b q. boundingBox2 b (Box q q)) b ps))"
  using assms by (induction ps arbitrary: b) (simp_all add: boundingBox2_def)

lemma envelope_wf:
  "ps \<noteq> [] \<Longrightarrow> getX (minCorner (envelope ps)) \<le> getX (maxCorner (envelope ps))
     \<and> getY (minCorner (envelope ps)) \<le> getY (maxCorner (envelope ps))"
  by (cases ps) (simp_all add: foldl_boundingBox2_wf)

lemma boundingBox_wf:
  "item_sh item \<noteq> [] \<Longrightarrow> 0 \<le> width (boundingBox L item) \<and> 0 \<le> height (boundingBox L item)"
  using envelope_wf [of "transformedShape L item"]
  by (simp add: boundingBox_def transformedShape_def width_def height_def)

lemma spec_ascore_le_1:
  assumes "item_sh item \<noteq> []"
  shows "spec_ascore L item p \<le> 1"
proof -
  from boundingBox_wf [OF assms, of L]
  have "0 \<le> width (boundingBox2 (boundingBox L p) (boundingBox L item))"
       "0 \<le> height (boundingBox2 (boundingBox L p) (boundingBox L item))"
    by (auto simp: width_def height_def boundingBox2_def)
  then have "0 \<le> Box_area (boundingBox2 (boundingBox L p) (boundingBox L item))"
    by (simp add: Box_area_def)
  moreover have "0 \<le> area item + area p" by (simp add: area_def)
  ultimately show ?thesis by (simp add: spec_ascore_def)
qed

lemma process_arrangeable_applyfn:
  "process_arrangeable a f = Some itm \<Longrightarrow> item_applyfn itm = f"
  by (auto simp: process_arrangeable_def Let_def split: list.splits prod.splits)

lemma process_all_set:
  assumes "process_all f as = Some items"
  shows "itm \<in> set items \<Longrightarrow> \<exists>a \<in> set as. process_arrangeable a (f a) = Some itm"
    and "a \<in> set as \<Longrightarrow> \<exists>itm \<in> set items. process_arrangeable a (f a) = Some itm"
  using assms
  by (induction as arbitrary: items; auto split: option.splits)+

lemma apply_closure_bin0: "apply_closure h bw itm 0 = apply_closure h 0 itm 0"
  by (simp add: apply_closure_def Let_def)



lemma arrange_impl_engine_call:
  "(run_packed (arrange_impl L bw shapes excludes bin d stop),
    run_polls (arrange_impl L bw shapes excludes bin d stop)) =
   ext_pack L ((run_arranger (arrange_impl L bw shapes excludes bin d stop))\<lparr>m_rtree := []\<rparr>)
     (run_inp (arrange_impl L bw shapes excludes bin d stop)) stop"
  by (cases "filter (inside_bin L bin) excludes = []")
     (simp_all add: arrange_impl_no_excludes arrange_impl_excludes Let_def arranger_call_def
        Nester_execute_def case_prod_beta)

lemma seat_call:
  assumes "item_applyfn itm0 = Some h"
  shows "callApplyFunction bw (markAsFixed (centered L bb itm0)) 0 =
           [apply_closure h 0 (markAsFixed (centered L bb itm0)) 0]"
  using assms
  by (simp add: callApplyFunction_def markAsFixed_def centered_def translate_def
        apply_closure_bin0 [of _ bw])

lemma arrange_impl_calls:
  assumes "\<forall>itm \<in> set shapes. \<exists>h. item_applyfn itm = Some h"
  shows "\<exists>seat. run_applied (arrange_impl L bw shapes excludes bin d stop) =
            seat @ apply_bins bw 0 (run_packed (arrange_impl L bw shapes excludes bin d stop))
         \<and> (seat = [] \<or> (\<exists>itm0 \<in> set shapes. \<exists>h. item_applyfn itm0 = Some h
               \<and> seat = [apply_closure h 0 (markAsFixed (centered L bin itm0)) 0]))"
proof (cases "filter (inside_bin L bin) excludes = []")
  case True
  then show ?thesis
    by (simp add: arrange_impl_no_excludes Let_def arranger_call_def Nester_execute_def
          case_prod_beta)
next
  case False
  define ar where "ar = fst (preload L (AutoArranger_init bin d) (filter (inside_bin L bin) excludes))"
  define rest where "rest = dropWhile (\<lambda>itm. is_colliding L ar (centered L bin itm)) shapes"
  have ap: "run_applied (arrange_impl L bw shapes excludes bin d stop) =
      (case rest of [] \<Rightarrow> []
       | itm # _ \<Rightarrow> callApplyFunction bw (markAsFixed (centered L bin itm)) 0)
      @ apply_bins bw 0 (run_packed (arrange_impl L bw shapes excludes bin d stop))"
    using False
    by (simp add: arrange_impl_excludes Let_def warm_start_eq arranger_call_def
          Nester_execute_def case_prod_beta ar_def rest_def)
  show ?thesis
  proof (cases rest)
    case Nil
    with ap show ?thesis by simp
  next
    case (Cons itm0 tl0)
    then have "itm0 \<in> set rest" by simp
    then have m: "itm0 \<in> set shapes" unfolding rest_def by (rule set_dropWhileD)
    with assms obtain h where h: "item_applyfn itm0 = Some h" by blast
    from ap Cons seat_call [OF h, of bw L bin] m h show ?thesis by auto
  qed
qed


text \<open>
  Every call of \<open>apply_arrange_result\<close> in a run of the facade: at most one call for the
  part seated by the warm start, with bin 0, and then the calls for the parts of the
  pack group, bin by bin, each made by the closure with \<open>binwidth\<close> 0.
\<close>

lemma arrange_run_calls:
  assumes "arrange_run L as es d hint stop = Some r"
  shows "\<exists>seat. run_applied r = seat @ apply_bins 0 0 (run_packed r)
         \<and> (seat = [] \<or> (\<exists>a \<in> set as. \<exists>itm0. process_arrangeable a (Some (arr_id a)) = Some itm0
               \<and> seat = [apply_closure (arr_id a) 0
                            (markAsFixed (centered L (m_bin (run_arranger r)) itm0)) 0]))"
proof -
  from assms obtain items fixeditems where
    p: "process_all (\<lambda>a. Some (arr_id a)) as = Some items"
    and r: "r = arrange_impl L 0 items fixeditems
              (ext_Box_infinite L (center (shape_box (hint_shape hint)))) d stop"
    by (rule arrange_run_Some)
  let ?bin = "ext_Box_infinite L (center (shape_box (hint_shape hint)))"
  have b: "m_bin (run_arranger r) = ?bin" unfolding r by (rule arrange_impl_arranger)
  have all: "\<forall>itm \<in> set items. \<exists>h. item_applyfn itm = Some h"
    using process_all_set(1) [OF p] process_arrangeable_applyfn by blast
  from arrange_impl_calls [OF all, of L 0 fixeditems ?bin d stop]
  obtain seat where s: "run_applied r = seat @ apply_bins 0 0 (run_packed r)"
    and c: "seat = [] \<or> (\<exists>itm0 \<in> set items. \<exists>h. item_applyfn itm0 = Some h
               \<and> seat = [apply_closure h 0 (markAsFixed (centered L ?bin itm0)) 0])"
    unfolding r by blast
  from c have "seat = [] \<or> (\<exists>a \<in> set as. \<exists>itm0. process_arrangeable a (Some (arr_id a)) = Some itm0
               \<and> seat = [apply_closure (arr_id a) 0 (markAsFixed (centered L ?bin itm0)) 0])"
  proof
    assume "seat = []" then show ?thesis by simp
  next
    assume "\<exists>itm0 \<in> set items. \<exists>h. item_applyfn itm0 = Some h
               \<and> seat = [apply_closure h 0 (markAsFixed (centered L ?bin itm0)) 0]"
    then obtain itm0 h where i: "itm0 \<in> set items" "item_applyfn itm0 = Some h"
      and st: "seat = [apply_closure h 0 (markAsFixed (centered L ?bin itm0)) 0]" by blast
    from process_all_set(1) [OF p i(1)] obtain a where
      a: "a \<in> set as" "process_arrangeable a (Some (arr_id a)) = Some itm0" by blast
    from process_arrangeable_applyfn [OF a(2)] i(2) have "h = arr_id a" by simp
    with a st show ?thesis by blast
  qed
  with s show ?thesis unfolding b by blast
qed





lemma warm_start_covers:
  "itm0 \<in> set shapes \<Longrightarrow>
     item_applyfn itm0 \<in> item_applyfn ` set (fst (warm_start L bw ar bb shapes))
   \<or> snd (warm_start L bw ar bb shapes) = callApplyFunction bw (markAsFixed (centered L bb itm0)) 0"
  by (induction shapes)
     (auto simp: Let_def centered_def translate_def case_prod_beta image_iff)

lemma arrange_impl_hands_on:
  assumes "itm0 \<in> set shapes" and "item_applyfn itm0 = Some h"
  shows "Some h \<in> item_applyfn ` set (run_inp (arrange_impl L bw shapes excludes bin d stop))
       \<or> apply_closure h 0 (markAsFixed (centered L bin itm0)) 0
            \<in> set (run_applied (arrange_impl L bw shapes excludes bin d stop))"
proof (cases "filter (inside_bin L bin) excludes = []")
  case True
  with assms show ?thesis
    by (force simp: arrange_impl_no_excludes Let_def)
next
  case False
  define ar where "ar = fst (preload L (AutoArranger_init bin d) (filter (inside_bin L bin) excludes))"
  from warm_start_covers [OF assms(1), of L bw ar bin]
  show ?thesis
  proof
    assume "item_applyfn itm0 \<in> item_applyfn ` set (fst (warm_start L bw ar bin shapes))"
    with False assms(2) show ?thesis
      by (auto simp: arrange_impl_excludes Let_def ar_def)
  next
    assume "snd (warm_start L bw ar bin shapes)
              = callApplyFunction bw (markAsFixed (centered L bin itm0)) 0"
    with False seat_call [OF assms(2), of bw L bin] show ?thesis
      by (simp add: arrange_impl_excludes Let_def ar_def)
  qed
qed

lemma sample_run5:
  "map_option run_packed
     (arrange_run (sample_externals pack_single_bin) [handle 1 (square 0 10)] [] 6000000
        (box_hint (Box (IntPoint 0 0) (IntPoint 200 200))) (Some (\<lambda>n. False)))
   = Some [[part (Some 1) (square 0 10)]]"
  by (simp add: arrange_run_def sample_eval run_eval pack_single_bin_def part_def)

section \<open>The clearance given to the arranger\<close>

text \<open>
  C1, as the code has it.  The facade hands \<open>min_obj_distance\<close> itself to the arranger,
  not the halved value.  The halved value \<open>md\<close> is the quotient rounded up when
  \<open>min_obj_distance\<close> is at least \<open>SCALED_EPSILON\<close>.
\<close>

theorem arrange_passes_full_distance:
  assumes "arrange_run L as es d hint stop = Some r"
  shows "m_pck_dist (run_arranger r) = d \<and>
         (SCALED_EPSILON L \<le> d \<longrightarrow>
            halved_distance L d = \<lceil>real_of_int (d - SCALED_EPSILON L) / 2\<rceil>)"
proof -
  from assms obtain items fixeditems where
    r: "r = arrange_impl L 0 items fixeditems
              (ext_Box_infinite L (center (shape_box (hint_shape hint)))) d stop"
    by (rule arrange_run_Some)
  have "m_pck_dist (run_arranger r) = d"
    unfolding r by (rule arrange_impl_arranger)
  moreover have "halved_distance L d = \<lceil>real_of_int (d - SCALED_EPSILON L) / 2\<rceil>"
    if "SCALED_EPSILON L \<le> d"
    using cdiv2_ceiling [of "d - SCALED_EPSILON L"] that
    by (simp add: halved_distance_def Let_def)
  ultimately show ?thesis by blast
qed

text \<open>The statement of C1 above at a clearance of 6 mm.\<close>

theorem arrange_passes_full_distance_witness:
  "\<exists>r. arrange_run (sample_externals pack_single_bin) [handle 1 (square 0 10)] [] 6000000
          (box_hint (Box (IntPoint 0 0) (IntPoint 200 200))) never_stop = Some r
      \<and> m_pck_dist (run_arranger r) = 6000000
      \<and> halved_distance (sample_externals pack_single_bin) 6000000 = 2999950"
proof -
  obtain r where r: "arrange_run (sample_externals pack_single_bin) [handle 1 (square 0 10)] []
      6000000 (box_hint (Box (IntPoint 0 0) (IntPoint 200 200))) never_stop = Some r"
    using sample_run1 by blast
  have "SCALED_EPSILON (sample_externals pack_single_bin) \<le> 6000000"
    by (simp add: sample_externals_def)
  with arrange_passes_full_distance [OF r] r show ?thesis
    by (simp add: sample_externals_def)
qed

text \<open>
  C1 as stated fails: for a clearance of 6 mm the arranger is given 6000000, and the
  halved value is 2999950.
\<close>

theorem halved_distance_counterexample:
  "map_option (\<lambda>r. m_pck_dist (run_arranger r) = halved_distance (sample_externals pack_single_bin) 6000000)
     (arrange_run (sample_externals pack_single_bin) [handle 1 (square 0 10)] [] 6000000
        (box_hint (Box (IntPoint 0 0) (IntPoint 200 200))) never_stop) = Some False"
  by (simp add: arrange_run_def sample_eval arrange_impl_def AutoArranger_init_def Let_def
       arranger_call_def Nester_execute_def pack_single_bin_def)

section \<open>The return value of the facade\<close>

text \<open>
  C2, as the code has it.  With a stop predicate that is not null and contours that are
  not empty, \<open>arrange\<close> returns false exactly when the stop predicate answers true at
  the poll after the arrangement, whatever the placement engine returns: a part left
  out of every bin does not make it false, and when the stop predicate never fires,
  \<open>arrange\<close> returns true.  The placement goes on for all parts: the engine is called
  once, every movable handle has its part handed to the engine or has had its result
  applied when the warm start seated it, and every part of the pack group that has an
  apply function has its result applied, whether or not other parts were left out.
\<close>

theorem arrange_returns_final_poll:
  assumes "arrange_run L as es d hint (Some stop) = Some r"
  shows "arrange L as es d hint (Some stop) = Inr (\<not> stop (run_polls r))
       \<and> ((\<forall>n. \<not> stop n) \<longrightarrow> arrange L as es d hint (Some stop) = Inr True)
       \<and> (run_packed r, run_polls r) =
            ext_pack L ((run_arranger r)\<lparr>m_rtree := []\<rparr>) (run_inp r) (Some stop)
       \<and> (\<forall>a \<in> set as.
             Some (arr_id a) \<in> item_applyfn ` set (run_inp r)
           \<or> (\<exists>itm0. process_arrangeable a (Some (arr_id a)) = Some itm0
                 \<and> apply_closure (arr_id a) 0
                      (markAsFixed (centered L (m_bin (run_arranger r)) itm0)) 0
                    \<in> set (run_applied r)))
       \<and> (\<forall>k < length (run_packed r). \<forall>itm \<in> set (run_packed r ! k). \<forall>h.
             item_applyfn itm = Some h \<longrightarrow> apply_closure h 0 itm k \<in> set (run_applied r))"
proof -
  from assms obtain items fixeditems where
    p: "process_all (\<lambda>a. Some (arr_id a)) as = Some items"
    and r: "r = arrange_impl L 0 items fixeditems
              (ext_Box_infinite L (center (shape_box (hint_shape hint)))) d (Some stop)"
    by (rule arrange_run_Some)
  let ?bin = "ext_Box_infinite L (center (shape_box (hint_shape hint)))"
  have b: "m_bin (run_arranger r) = ?bin" unfolding r by (rule arrange_impl_arranger)
  have 1: "arrange L as es d hint (Some stop) = Inr (\<not> stop (run_polls r))"
    using assms by (simp add: arrange_def)
  have 3: "(run_packed r, run_polls r) =
            ext_pack L ((run_arranger r)\<lparr>m_rtree := []\<rparr>) (run_inp r) (Some stop)"
    unfolding r by (rule arrange_impl_engine_call)
  have 4: "Some (arr_id a) \<in> item_applyfn ` set (run_inp r)
           \<or> (\<exists>itm0. process_arrangeable a (Some (arr_id a)) = Some itm0
                 \<and> apply_closure (arr_id a) 0 (markAsFixed (centered L ?bin itm0)) 0
                    \<in> set (run_applied r))" if "a \<in> set as" for a
  proof -
    from process_all_set(2) [OF p that] obtain itm0 where
      i: "itm0 \<in> set items" "process_arrangeable a (Some (arr_id a)) = Some itm0" by blast
    from process_arrangeable_applyfn [OF i(2)] have h: "item_applyfn itm0 = Some (arr_id a)" .
    from arrange_impl_hands_on [OF i(1) h, of L 0 fixeditems ?bin d "Some stop"] i(2)
    show ?thesis unfolding r by blast
  qed
  have 5: "apply_closure h 0 itm k \<in> set (run_applied r)"
    if "k < length (run_packed r)" "itm \<in> set (run_packed r ! k)" "item_applyfn itm = Some h"
    for k itm h
  proof -
    from arrange_run_calls [OF assms] obtain seat where
      "run_applied r = seat @ apply_bins 0 0 (run_packed r)" by blast
    moreover have "apply_closure h 0 itm (0 + k) \<in> set (apply_bins 0 0 (run_packed r))"
      using that by (rule apply_bins_member)
    ultimately show ?thesis by simp
  qed
  from 1 3 4 5 show ?thesis unfolding b by simp
qed


text \<open>
  C2 above for one square and a stop predicate that never fires: \<open>arrange\<close> returns
  true, and the square, which the engine puts into bin 0, has its result applied.
\<close>

theorem arrange_returns_final_poll_witness:
  "\<exists>r. arrange_run (sample_externals pack_single_bin) [handle 1 (square 0 10)] [] 6000000
          (box_hint (Box (IntPoint 0 0) (IntPoint 200 200))) (Some (\<lambda>n. False)) = Some r
      \<and> arrange (sample_externals pack_single_bin) [handle 1 (square 0 10)] [] 6000000
          (box_hint (Box (IntPoint 0 0) (IntPoint 200 200))) (Some (\<lambda>n. False)) = Inr True
      \<and> run_packed r = [[part (Some 1) (square 0 10)]]
      \<and> apply_closure 1 0 (part (Some 1) (square 0 10)) 0 \<in> set (run_applied r)"
proof -
  obtain r where r: "arrange_run (sample_externals pack_single_bin) [handle 1 (square 0 10)] []
      6000000 (box_hint (Box (IntPoint 0 0) (IntPoint 200 200))) (Some (\<lambda>n. False)) = Some r"
    and p: "run_packed r = [[part (Some 1) (square 0 10)]]"
    using sample_run5 by (auto simp: map_option_case split: option.splits)
  note t = arrange_returns_final_poll [OF r]
  have k: "0 < length (run_packed r)"
    and m: "part (Some 1) (square 0 10) \<in> set (run_packed r ! 0)"
    and h: "item_applyfn (part (Some 1) (square 0 10)) = Some 1"
    by (simp_all add: p part_def)
  from t have "arrange (sample_externals pack_single_bin) [handle 1 (square 0 10)] [] 6000000
          (box_hint (Box (IntPoint 0 0) (IntPoint 200 200))) (Some (\<lambda>n. False)) = Inr True"
    by simp
  moreover from t k m h
  have "apply_closure 1 0 (part (Some 1) (square 0 10)) 0 \<in> set (run_applied r)"
    by blast
  ultimately show ?thesis
    by (intro exI [of _ r] conjI) (rule r, assumption, rule p, assumption)
qed


text \<open>
  C2 as stated fails.  For a bar of 250 mm with two squares on a disc bed of 100 mm
  radius, which the bar does not fit, \<open>arrange\<close> returns true for every instance of
  the external operations, so also for every placement engine that leaves the bar out.
  In the bin which the facade builds, the infinite box, a part does not fit only when it
  is larger than the box: with the engine that leaves such a part out, the square wider
  than the box is in no bin, the two other squares are placed and have their results
  applied, the stop predicate never fires, and \<open>arrange\<close> returns true.
\<close>

theorem unplaceable_part_counterexample:
  "(\<forall>L. arrange L
      [handle 1 (rectangle 250000000 10000000), handle 2 (square 0 20000000),
       handle 3 (square 0 20000000)] [] 2000000
      (disc_hint (IntPoint 0 0) 100000000) never_stop = Inr True)
   \<and> map_option (\<lambda>r. (map (map item_applyfn) (run_packed r), map ev_target (run_applied r)))
       (arrange_run (sample_externals pack_fitting)
          [handle 1 (square 0 10), handle 2 (square 0 (2 ^ 62 + 2)), handle 3 (square 0 20)] [] 0
          (box_hint (Box (IntPoint 0 0) (IntPoint 200 200))) never_stop)
       = Some ([[Some 1, Some 3]], [1, 3])
   \<and> arrange (sample_externals pack_fitting)
        [handle 1 (square 0 10), handle 2 (square 0 (2 ^ 62 + 2)), handle 3 (square 0 20)] [] 0
        (box_hint (Box (IntPoint 0 0) (IntPoint 200 200))) never_stop = Inr True"
proof (intro conjI allI)
  fix L
  show "arrange L
      [handle 1 (rectangle 250000000 10000000), handle 2 (square 0 20000000),
       handle 3 (square 0 20000000)] [] 2000000
      (disc_hint (IntPoint 0 0) 100000000) never_stop = Inr True"
    by (simp add: arrange_def arrange_run_def handle_def rectangle_def square_def
          process_arrangeable_def is_counter_clockwise_def signed_area_def never_stop_def)
next
  show "map_option (\<lambda>r. (map (map item_applyfn) (run_packed r), map ev_target (run_applied r)))
       (arrange_run (sample_externals pack_fitting)
          [handle 1 (square 0 10), handle 2 (square 0 (2 ^ 62 + 2)), handle 3 (square 0 20)] [] 0
          (box_hint (Box (IntPoint 0 0) (IntPoint 200 200))) never_stop)
       = Some ([[Some 1, Some 3]], [1, 3])"
    by (simp add: arrange_run_def sample_eval run_eval pack_fitting_def fits_bin_def
          boundingBox2_def width_def height_def)
next
  show "arrange (sample_externals pack_fitting)
        [handle 1 (square 0 10), handle 2 (square 0 (2 ^ 62 + 2)), handle 3 (square 0 20)] [] 0
        (box_hint (Box (IntPoint 0 0) (IntPoint 200 200))) never_stop = Inr True"
    by (simp add: arrange_def arrange_run_def sample_eval)
qed


section \<open>The bin of the facade\<close>



section \<open>The stride between bins\<close>




section \<open>The two spatial indices\<close>

text \<open>
  C5, as the code has it.  After each \<open>before_packing\<close> the index of the big parts
  holds exactly the indices of the parts whose area exceeds the threshold, the index of
  all parts holds every index, and the first is a subset of the second.  \<open>preload\<close>
  adds the index of every fixed part to the index of the big parts, whatever its area,
  and leaves the index of all parts as it is.
\<close>

theorem index_contents_by_operation:
  "rtree_indices (m_rtree (before_packing L a mp items rem)) =
      {i. i < length items \<and> isBig (m_bin_area a) (area (items ! i))}
   \<and> rtree_indices (m_smallsrtree (before_packing L a mp items rem)) = {i. i < length items}
   \<and> rtree_indices (m_rtree (before_packing L a mp items rem))
        \<subseteq> rtree_indices (m_smallsrtree (before_packing L a mp items rem))
   \<and> rtree_indices (m_rtree (fst (preload L a fixeditems))) =
        rtree_indices (m_rtree a) \<union> {i. i < length fixeditems}
   \<and> m_smallsrtree (fst (preload L a fixeditems)) = m_smallsrtree a"
proof -
  have 1: "rtree_indices (m_rtree (before_packing L a mp items rem)) =
      {i. i < length items \<and> isBig (m_bin_area a) (area (items ! i))}"
    by (auto simp: rtree_indices_def before_packing_trees image_iff)
  have 2: "rtree_indices (m_smallsrtree (before_packing L a mp items rem)) = {i. i < length items}"
    by (auto simp: rtree_indices_def before_packing_trees image_iff)
  have 3: "rtree_indices (m_rtree (fst (preload L a fixeditems))) =
        rtree_indices (m_rtree a) \<union> {i. i < length fixeditems}"
    by (auto simp: rtree_indices_def preload_fields image_Un image_image)
  from 1 2 3 show ?thesis by (auto simp: preload_fields)
qed

text \<open>C5 above for a small and a big square in a bin of 100 by 100.\<close>

theorem index_contents_by_operation_witness:
  "rtree_indices (m_rtree (before_packing (sample_externals pack_single_bin)
       (AutoArranger_init (Box (IntPoint 0 0) (IntPoint 100 100)) 0) []
       [part None (square 0 10), part None (square 0 50)] [])) = {1}
   \<and> rtree_indices (m_smallsrtree (before_packing (sample_externals pack_single_bin)
       (AutoArranger_init (Box (IntPoint 0 0) (IntPoint 100 100)) 0) []
       [part None (square 0 10), part None (square 0 50)] [])) = {0, 1}"
proof -
  have b: "m_bin_area (AutoArranger_init (Box (IntPoint 0 0) (IntPoint 100 100)) 0) = 10000"
    by (simp add: AutoArranger_init_def Let_def Box_area_def width_def height_def)
  have a0: "area (part None (square 0 10)) = 100" and a1: "area (part None (square 0 50)) = 2500"
    by (simp_all add: area_def part_def square_def signed_area_def)
  have "{i. i < length [part None (square 0 10), part None (square 0 50)]
           \<and> isBig 10000 (area ([part None (square 0 10), part None (square 0 50)] ! i))} = {1}"
    by (auto simp: isBig_def BIG_ITEM_TRESHOLD_def a0 a1 less_Suc_eq nth_Cons')
  moreover have "{i. i < length [part None (square 0 10), part None (square 0 50)]} = {0, 1}"
    by auto
  ultimately show ?thesis
    using index_contents_by_operation [of "sample_externals pack_single_bin"
      "AutoArranger_init (Box (IntPoint 0 0) (IntPoint 100 100)) 0" "[]"
      "[part None (square 0 10), part None (square 0 50)]" "[]" "[]"]
    unfolding b by simp
qed

text \<open>
  C5 as stated fails in the state after \<open>preload\<close>: a fixed square of 1/10000 of the
  bin area is in the index of the big parts and not in the index of all parts.
\<close>

theorem index_subset_counterexample:
  "\<not> rtree_indices (m_rtree (fst (preload (sample_externals pack_single_bin)
          (AutoArranger_init (Box (IntPoint 0 0) (IntPoint 1000 1000)) 0) [part None (square 0 10)])))
      \<subseteq> rtree_indices (m_smallsrtree (fst (preload (sample_externals pack_single_bin)
          (AutoArranger_init (Box (IntPoint 0 0) (IntPoint 1000 1000)) 0) [part None (square 0 10)])))
   \<and> \<not> isBig (m_bin_area (fst (preload (sample_externals pack_single_bin)
          (AutoArranger_init (Box (IntPoint 0 0) (IntPoint 1000 1000)) 0) [part None (square 0 10)])))
        (area (part None (square 0 10)))"
  by (simp add: rtree_indices_def preload_def preload_step_def Let_def AutoArranger_init_def
        rtree_insert_def isBig_def BIG_ITEM_TRESHOLD_def area_def part_def square_def
        signed_area_def Box_area_def width_def height_def)

section \<open>The warm start\<close>

text \<open>
  C6, as the code has it.  When some fixed part is inside the bin, the loop goes
  through the movable parts in order and moves each by the difference of the center of
  the bin and the center of its bounding box.  The first part that then intersects no
  box of the index of the big parts is marked fixed, has its result applied with bin 0
  and is removed from the movable parts, and the loop ends.  The parts before it stay
  moved and stay in the list; the parts after it are untouched.  When every part is
  blocked, no result is applied here.
\<close>

theorem warm_start_seats_first_free:
  fixes L bw shapes excludes bin d stop
  defines "kept \<equiv> filter (inside_bin L bin) excludes"
  defines "ar \<equiv> fst (preload L (AutoArranger_init bin d) kept)"
  defines "blocked \<equiv> \<lambda>itm. \<exists>e \<in> set (m_rtree ar). box_intersects (fst e) (boundingBox L (centered L bin itm))"
  defines "r \<equiv> arrange_impl L bw shapes excludes bin d stop"
  assumes "kept \<noteq> []"
  shows "run_inp r = map (centered L bin) (takeWhile blocked shapes)
                       @ tl (dropWhile blocked shapes) @ map markAsFixed kept
       \<and> run_applied r =
           (case dropWhile blocked shapes of
              [] \<Rightarrow> []
            | itm # _ \<Rightarrow> callApplyFunction bw (markAsFixed (centered L bin itm)) 0)
           @ apply_bins bw 0 (run_packed r)"
proof -
  have b: "blocked = (\<lambda>itm. is_colliding L ar (centered L bin itm))"
    unfolding blocked_def is_colliding_iff ..
  from assms(5) show ?thesis
    unfolding r_def b
    by (simp add: arrange_impl_excludes Let_def warm_start_eq arranger_call_def
          Nester_execute_def case_prod_beta kept_def [symmetric] ar_def [symmetric])
qed


text \<open>C6 above for a large and a small square beside one fixed square.\<close>

theorem warm_start_seats_first_free_witness:
  "map item_applyfn (run_inp (arrange_impl (sample_externals pack_single_bin) 0
       [part (Some 1) (square (- 50) 50), part (Some 2) (square (- 10) 10)]
       [part None (square 40 60)]
       (Box (IntPoint (- 100) (- 100)) (IntPoint 100 100)) 0 never_stop)) = [Some 1, None]
   \<and> map ev_target (run_applied (arrange_impl (sample_externals pack_single_bin) 0
       [part (Some 1) (square (- 50) 50), part (Some 2) (square (- 10) 10)]
       [part None (square 40 60)]
       (Box (IntPoint (- 100) (- 100)) (IntPoint 100 100)) 0 never_stop)) = [2, 1]"
proof -
  have k: "filter (inside_bin (sample_externals pack_single_bin)
               (Box (IntPoint (- 100) (- 100)) (IntPoint 100 100))) [part None (square 40 60)]
           = [part None (square 40 60)]"
    by (simp add: inside_bin_def warm_eval)
  have p: "run_packed (arrange_impl (sample_externals pack_single_bin) 0
       [part (Some 1) (square (- 50) 50), part (Some 2) (square (- 10) 10)]
       [part None (square 40 60)]
       (Box (IntPoint (- 100) (- 100)) (IntPoint 100 100)) 0 never_stop)
     = [[part (Some 1) (square (- 50) 50), markAsFixed (part None (square 40 60))]]"
    by (simp add: arrange_impl_def arranger_call_def Nester_execute_def pack_single_bin_def warm_eval)
  have n: "filter (inside_bin (sample_externals pack_single_bin)
               (Box (IntPoint (- 100) (- 100)) (IntPoint 100 100))) [part None (square 40 60)] \<noteq> []"
    unfolding k by simp
  show ?thesis
    using warm_start_seats_first_free [OF n, of 0
        "[part (Some 1) (square (- 50) 50), part (Some 2) (square (- 10) 10)]" 0 never_stop]
    unfolding k p
    by (simp add: centered_def warm_eval)
qed

text \<open>
  C6 as stated fails: the first movable part collides with the fixed part at the center
  of the bin, and the second movable part is seated: its result is applied and it
  leaves the list, in which the first part remains.
\<close>

theorem second_part_seated_counterexample:
  "map ev_target (snd (warm_start (sample_externals pack_single_bin) 0
       (fst (preload (sample_externals pack_single_bin)
              (AutoArranger_init (Box (IntPoint (- 100) (- 100)) (IntPoint 100 100)) 0)
              [part None (square 40 60)]))
       (Box (IntPoint (- 100) (- 100)) (IntPoint 100 100))
       [part (Some 1) (square (- 50) 50), part (Some 2) (square (- 10) 10)])) = [2]
   \<and> map item_applyfn (fst (warm_start (sample_externals pack_single_bin) 0
       (fst (preload (sample_externals pack_single_bin)
              (AutoArranger_init (Box (IntPoint (- 100) (- 100)) (IntPoint 100 100)) 0)
              [part None (square 40 60)]))
       (Box (IntPoint (- 100) (- 100)) (IntPoint 100 100))
       [part (Some 1) (square (- 50) 50), part (Some 2) (square (- 10) 10)])) = [Some 1]"
  by (simp add: warm_eval)

section \<open>The objective for a big item\<close>

text \<open>
  C7: for a part with a contour, when its area exceeds the threshold or the index of the
  big parts is empty, and parts remain, the case is \<open>BIG_ITEM\<close> and the score of
  \<open>objfunc\<close> is the score of the spec: half the distance term and half the density
  when the query returns no neighbour, and otherwise 0.4 of each and 0.2 of the
  alignment, the least alignment score over the neighbours of equal area, or 1 when
  there is none.
\<close>

theorem big_item_score:
  assumes "(isBig (m_bin_area a) (area item) \<or> m_rtree a = []) \<and> m_remaining a \<noteq> []"
    and "item_sh item \<noteq> []"
  shows "compute_case a item = BIG_ITEM
       \<and> fst (objfunc L a item bincenter) = spec_big_item_score L a item bincenter"
proof -
  let ?ibb = "boundingBox L item"
  let ?res = "rtree_query (if isBig (m_bin_area a) (area item) then m_rtree a else m_smallsrtree a) ?ibb"
  let ?S = "spec_ascore L item `
       {p. \<exists>e \<in> set (spec_neighbors L a item). p = m_items a ! snd e \<and> spec_equal_area item p}"
  have cc: "compute_case a item = BIG_ITEM"
    using assms(1) by (simp add: compute_case_def)
  have res: "?res = spec_neighbors L a item"
    by (simp add: rtree_query_def spec_neighbors_def)
  have al: "foldl (alignment_step L (m_items a) item ?ibb) 1 ?res = spec_alignment L a item"
  proof -
    have "foldl (alignment_step L (m_items a) item ?ibb) 1 ?res = Min (insert 1 ?S)"
      unfolding res by (rule foldl_alignment)
    also have "\<dots> = (if ?S = {} then 1 else Min ?S)"
    proof (cases "?S = {}")
      case True
      show ?thesis by (simp only: True Min_singleton if_True simp_thms)
    next
      case False
      have "finite ?S" by simp
      moreover have "\<forall>s \<in> ?S. s \<le> 1" using spec_ascore_le_1 [OF assms(2)] by auto
      ultimately have "Min (insert 1 ?S) = Min ?S" using False by (intro Min_insert_top)
      with False show ?thesis by (simp only: if_False)
    qed
    finally show ?thesis unfolding spec_alignment_def Let_def .
  qed
  have an: "min_element
       [distance (minCorner ?ibb) c, distance (maxCorner ?ibb) c, distance (center ?ibb) c,
        distance (IntPoint (getX (minCorner ?ibb)) (getY (maxCorner ?ibb))) c,
        distance (IntPoint (getX (maxCorner ?ibb)) (getY (minCorner ?ibb))) c]
      = Min ((\<lambda>p. distance p c) `
          {minCorner ?ibb, maxCorner ?ibb, center ?ibb,
           IntPoint (getX (minCorner ?ibb)) (getY (maxCorner ?ibb)),
           IntPoint (getX (maxCorner ?ibb)) (getY (minCorner ?ibb))})" for c
    by (subst min_element_Min) simp_all
  have "fst (objfunc L a item bincenter) = spec_big_item_score L a item bincenter"
    unfolding objfunc_def spec_big_item_score_def Let_def cc fst_conv e_cases.case
      spec_anchor_distance_def an res al [unfolded res]
    by simp
  with cc show ?thesis by simp
qed


text \<open>
  C7 for a square of 10 by 10 on an empty pile in a bin of 100 by 100, with the bin
  center at the center of the square: the distance term is 0, the density 1/10.
\<close>

theorem big_item_score_witness:
  "fst (objfunc (sample_externals pack_single_bin)
          (before_packing (sample_externals pack_single_bin)
             (AutoArranger_init (Box (IntPoint 0 0) (IntPoint 100 100)) 0) [] []
             [part None (square 0 10)])
          (part None (square 0 10)) (IntPoint 5 5)) = 1 / 20"
proof -
  define a where "a = before_packing (sample_externals pack_single_bin)
             (AutoArranger_init (Box (IntPoint 0 0) (IntPoint 100 100)) 0) [] []
             [part None (square 0 10)]"
  have a: "m_rtree a = []" "m_smallsrtree a = []" "m_remaining a = [part None (square 0 10)]"
     "m_pilebb a = inverse_box" "m_norm a = 100"
    by (simp_all add: a_def before_packing_def AutoArranger_init_def Let_def Box_area_def
          width_def height_def)
  have h1: "(isBig (m_bin_area a) (area (part None (square 0 10))) \<or> m_rtree a = [])
              \<and> m_remaining a \<noteq> []"
    by (simp add: a)
  have h2: "item_sh (part None (square 0 10)) \<noteq> []" by (simp add: part_def)
  have bb: "boundingBox (sample_externals pack_single_bin) (part None (square 0 10))
              = Box (IntPoint 0 0) (IntPoint 10 10)"
    by (simp add: boundingBox_def transformedShape_def sample_externals_def part_def square_def
          padd_def boundingBox2_def)
  have "spec_big_item_score (sample_externals pack_single_bin) a (part None (square 0 10))
          (IntPoint 5 5) = 1 / 20"
    by (simp add: spec_big_item_score_def Let_def spec_neighbors_def a bb
          spec_anchor_distance_def inverse_box_def coord_max_def coord_min_def boundingBox2_def
          center_def cdiv_def distance_def width_def height_def real_sqrt_divide)
  with big_item_score [OF h1 h2, of "sample_externals pack_single_bin" "IntPoint 5 5"]
  show ?thesis unfolding a_def by simp
qed

section \<open>The bed shape\<close>

text \<open>
  C8, as the code has it.  An outline with a point is a box exactly when one minus the
  quotient of its area by the area of its bounding box is below 1/1000 (the test has
  one side); otherwise it is a circle exactly when the distance of every vertex from
  the center of the bounding box differs from the mean of these distances by at most
  ten times \<open>SCALED_EPSILON\<close>; otherwise it is irregular.
\<close>

theorem bedShape_classification:
  assumes "bed \<noteq> []"
  shows "\<exists>h. bedShape L bed = Some h
     \<and> (hint_type h = BOX \<longleftrightarrow> 1 - poly_area bed / Box_area (envelope bed) < 1 / 1000)
     \<and> (hint_type h = CIRCLE \<longleftrightarrow>
           \<not> 1 - poly_area bed / Box_area (envelope bed) < 1 / 1000
         \<and> (\<forall>p \<in> set bed. \<bar>distance (center (envelope bed)) p - mean_vertex_distance bed\<bar>
                \<le> 10 * real_of_int (SCALED_EPSILON L)))
     \<and> (hint_type h = IRREGULAR \<longleftrightarrow>
           \<not> 1 - poly_area bed / Box_area (envelope bed) < 1 / 1000
         \<and> \<not> (\<forall>p \<in> set bed. \<bar>distance (center (envelope bed)) p - mean_vertex_distance bed\<bar>
                \<le> 10 * real_of_int (SCALED_EPSILON L)))"
proof (cases "1 - poly_area bed / Box_area (envelope bed) < 1 / 1000")
  case True
  with assms show ?thesis by (simp add: bedShape_def Let_def)
next
  case False
  have c: "isCircle L (envelope bed) bed =
      (if \<forall>p \<in> set bed. \<bar>distance (center (envelope bed)) p - mean_vertex_distance bed\<bar>
                \<le> 10 * real_of_int (SCALED_EPSILON L)
       then CircleBed (center (envelope bed)) (mean_vertex_distance bed)
       else CircleBed_invalid)"
    by (auto simp: isCircle_def Let_def list_ex_iff mean_vertex_distance_def not_le)
  from assms False show ?thesis
    by (simp add: bedShape_def Let_def c)
qed

text \<open>C8 above for a square outline, which is a box.\<close>

theorem bedShape_classification_witness:
  "map_option hint_type (bedShape (sample_externals pack_single_bin) (square 0 10)) = Some BOX"
proof -
  have n: "square 0 10 \<noteq> []" by (simp add: square_def)
  have "1 - poly_area (square 0 10) / Box_area (envelope (square 0 10)) < 1 / 1000"
    by (simp add: poly_area_def square_def signed_area_def Box_area_def width_def height_def
          boundingBox2_def)
  with bedShape_classification [OF n, of "sample_externals pack_single_bin"] show ?thesis
    by auto
qed

text \<open>
  C8 as stated fails: the outline that goes twice around a square has twice the area of
  its bounding box, which is not equal within the tolerance, and is classified as a box.
\<close>

theorem doubly_wound_outline_counterexample:
  "map_option hint_type (bedShape (sample_externals pack_single_bin) (square 0 2 @ square 0 2))
      = Some BOX
   \<and> \<not> area_equals_box_area (square 0 2 @ square 0 2)"
  by (simp add: bedShape_def area_equals_box_area_def Let_def poly_area_def square_def
        signed_area_def Box_area_def width_def height_def boundingBox2_def
        default_BedShapeHint_def)

section \<open>Fixed handles and their callbacks\<close>

text \<open>
  C9: for a placement engine that keeps references to the parts it is given, no result
  is applied to a fixed handle that is not also a movable one, and every part made from
  a fixed handle has the null apply function, on which \<open>callApplyFunction\<close> does
  nothing.
\<close>

theorem fixed_handles_get_no_callback:
  assumes "arrange_run L as es d hint stop = Some r"
    and "packs_given_parts L"
  shows "(\<forall>e \<in> set es. arr_id e \<notin> arr_id ` set as \<longrightarrow>
            filter (\<lambda>ev. ev_target ev = arr_id e) (run_applied r) = [])
       \<and> (\<forall>fixeditems. process_all (\<lambda>a. None) es = Some fixeditems \<longrightarrow>
            (\<forall>itm \<in> set fixeditems. item_applyfn itm = None
                \<and> (\<forall>binwidth binidx. callApplyFunction binwidth itm binidx = [])))"
proof -
  from assms(1) obtain items fixeditems where
    p: "process_all (\<lambda>a. Some (arr_id a)) as = Some items"
       "process_all (\<lambda>a. None) es = Some fixeditems"
    and r: "r = arrange_impl L 0 items fixeditems
              (ext_Box_infinite L (center (shape_box (hint_shape hint)))) d stop"
    by (rule arrange_run_Some)
  have mi: "item_applyfn ` set items = (\<lambda>a. Some (arr_id a)) ` set as"
  proof -
    have "set (map item_applyfn items) = set (map (\<lambda>a. Some (arr_id a)) as)"
      using process_all_applyfn [OF p(1)] by simp
    then show ?thesis by (simp only: set_map)
  qed
  have mf: "\<forall>itm \<in> set fx. item_applyfn itm = None"
    if "process_all (\<lambda>a. None) es = Some fx" for fx
  proof
    fix itm assume "itm \<in> set fx"
    then have "item_applyfn itm \<in> set (map item_applyfn fx)" by simp
    also have "map item_applyfn fx = map (\<lambda>a. None) es"
      using process_all_applyfn [OF that] .
    finally show "item_applyfn itm = None" by auto
  qed
  have "ev_target ev \<in> arr_id ` set as" if "ev \<in> set (run_applied r)" for ev
  proof -
    from that have "Some (ev_target ev) \<in> item_applyfn ` (set items \<union> set fixeditems)"
      unfolding r using arrange_impl_targets [OF assms(2)] by blast
    then consider "Some (ev_target ev) \<in> item_applyfn ` set items"
      | "Some (ev_target ev) \<in> item_applyfn ` set fixeditems"
      by blast
    then show ?thesis
    proof cases
      case 1
      then show ?thesis unfolding mi by auto
    next
      case 2
      with mf [OF p(2)] show ?thesis by force
    qed
  qed
  then have "\<forall>e \<in> set es. arr_id e \<notin> arr_id ` set as \<longrightarrow>
            filter (\<lambda>ev. ev_target ev = arr_id e) (run_applied r) = []"
    unfolding filter_empty_conv by metis
  moreover have "\<forall>fx. process_all (\<lambda>a. None) es = Some fx \<longrightarrow>
            (\<forall>itm \<in> set fx. item_applyfn itm = None
                \<and> (\<forall>binwidth binidx. callApplyFunction binwidth itm binidx = []))"
    using mf by (auto simp: callApplyFunction_def)
  ultimately show ?thesis by blast
qed

text \<open>C9 for one movable and one fixed square.\<close>

theorem fixed_handles_get_no_callback_witness:
  "\<exists>r. arrange_run (sample_externals pack_single_bin)
          [handle 1 (square 0 10)] [handle 2 (square 40 60)] 0
          (box_hint (Box (IntPoint 0 0) (IntPoint 200 200))) never_stop = Some r
      \<and> filter (\<lambda>ev. ev_target ev = 2) (run_applied r) = []"
proof -
  obtain r where r: "arrange_run (sample_externals pack_single_bin)
      [handle 1 (square 0 10)] [handle 2 (square 40 60)] 0
      (box_hint (Box (IntPoint 0 0) (IntPoint 200 200))) never_stop = Some r"
    using sample_run3 by blast
  have "handle 2 (square 40 60) \<in> set [handle 2 (square 40 60)]" by simp
  moreover have "arr_id (handle 2 (square 40 60)) \<notin> arr_id ` set [handle 1 (square 0 10)]"
    by (simp add: handle_def)
  ultimately have "filter (\<lambda>ev. ev_target ev = arr_id (handle 2 (square 40 60))) (run_applied r) = []"
    using fixed_handles_get_no_callback [OF r pack_single_bin_given] by blast
  with r show ?thesis by (simp add: handle_def)
qed

section \<open>Fixed parts outside the bin\<close>

text \<open>
  C10: \<open>_arrange\<close> gives the same run when the fixed parts that are not inside the bin
  are removed from its input; the fixed parts of the input of the placement engine are
  the kept ones, marked fixed; the index holds the kept ones only; and when none is
  kept, the run is the one without fixed parts: the movable parts are passed as they
  are, the arranger is as constructed (no preload), and results are applied by the
  placement engine only (no warm start).
\<close>

theorem outside_excludes_are_erased:
  fixes L bw shapes excludes bin d stop
  defines "kept \<equiv> filter (inside_bin L bin) excludes"
  defines "r \<equiv> arrange_impl L bw shapes excludes bin d stop"
  shows "r = arrange_impl L bw shapes kept bin d stop
       \<and> (\<exists>shapes1. run_inp r = shapes1 @ map markAsFixed kept)
       \<and> m_rtree (run_arranger r) =
            map (\<lambda>i. (boundingBox L (markAsFixed (kept ! i)), i)) [0..<length kept]
       \<and> (kept = [] \<longrightarrow> run_inp r = shapes \<and> run_arranger r = AutoArranger_init bin d
             \<and> run_applied r = apply_bins bw 0 (run_packed r)
             \<and> r = arrange_impl L bw shapes [] bin d stop)"
proof -
  have 1: "r = arrange_impl L bw shapes kept bin d stop"
    unfolding r_def kept_def inside_bin_def [abs_def] by (simp add: arrange_impl_def)
  have 2: "\<exists>shapes1. run_inp r = shapes1 @ map markAsFixed kept"
    unfolding r_def kept_def
    by (cases "filter (inside_bin L bin) excludes = []")
       (simp_all add: arrange_impl_no_excludes arrange_impl_excludes Let_def)
  have 3: "m_rtree (run_arranger r) =
            map (\<lambda>i. (boundingBox L (markAsFixed (kept ! i)), i)) [0..<length kept]"
    unfolding r_def kept_def
    by (cases "filter (inside_bin L bin) excludes = []")
       (simp_all add: arrange_impl_no_excludes arrange_impl_excludes Let_def preload_fields
          AutoArranger_init_def)
  have 4: "run_inp r = shapes \<and> run_arranger r = AutoArranger_init bin d
             \<and> run_applied r = apply_bins bw 0 (run_packed r)
             \<and> r = arrange_impl L bw shapes [] bin d stop" if "kept = []"
    using that unfolding r_def kept_def
    by (simp add: arrange_impl_no_excludes Let_def arranger_call_def Nester_execute_def
          case_prod_beta)
  from 1 2 3 4 show ?thesis by blast
qed


text \<open>C10 for one fixed square that lies outside the bin.\<close>

theorem outside_excludes_are_erased_witness:
  "run_inp (arrange_impl (sample_externals pack_single_bin) 0 [part (Some 1) (square 0 10)]
      [part None (square 300 320)] (Box (IntPoint 0 0) (IntPoint 200 200)) 0 never_stop)
     = [part (Some 1) (square 0 10)]
   \<and> run_arranger (arrange_impl (sample_externals pack_single_bin) 0 [part (Some 1) (square 0 10)]
      [part None (square 300 320)] (Box (IntPoint 0 0) (IntPoint 200 200)) 0 never_stop)
     = AutoArranger_init (Box (IntPoint 0 0) (IntPoint 200 200)) 0"
proof -
  have "filter (inside_bin (sample_externals pack_single_bin) (Box (IntPoint 0 0) (IntPoint 200 200)))
          [part None (square 300 320)] = []"
    by (simp add: inside_bin_def sample_externals_def sample_isInside_def transformedShape_def
          part_def square_def padd_def boundingBox2_def)
  with outside_excludes_are_erased [where L = "sample_externals pack_single_bin"
      and bin = "Box (IntPoint 0 0) (IntPoint 200 200)" and excludes = "[part None (square 300 320)]"
      and shapes = "[part (Some 1) (square 0 10)]" and bw = 0 and d = 0 and stop = never_stop]
  show ?thesis by blast
qed

end
